theory Spec2Isabelle
  imports Main
begin

section \<open>Dates as JavaScript computes them\<close>

text \<open>
  \<^verbatim>\<open>firstLastDayOfMonth\<close> builds two \<^verbatim>\<open>Date\<close> objects from local-time fields and
  prints them with \<^verbatim>\<open>toISOString\<close>, which prints UTC fields. The functions below
  are the abstract operations of the ECMAScript specification on time values
  (milliseconds since 1970-01-01T00:00:00Z), over \<open>int\<close> with floor division.
\<close>

definition msPerDay :: int where
  "msPerDay = 86400000"

definition Day :: "int \<Rightarrow> int" where
  "Day t = t div msPerDay"

definition TimeWithinDay :: "int \<Rightarrow> int" where
  "TimeWithinDay t = t mod msPerDay"

definition DaysInYear :: "int \<Rightarrow> int" where
  "DaysInYear y =
     (if y mod 4 \<noteq> 0 then 365
      else if y mod 100 \<noteq> 0 then 366
      else if y mod 400 \<noteq> 0 then 365
      else 366)"

definition DayFromYear :: "int \<Rightarrow> int" where
  "DayFromYear y =
     365 * (y - 1970) + (y - 1969) div 4 - (y - 1901) div 100 + (y - 1601) div 400"

text \<open>
  \<^verbatim>\<open>YearFromTime(t)\<close> is the largest \<open>y\<close> with \<open>DayFromYear y \<le> Day t\<close>. It is
  computed by a search upwards from a year that is not above it: a year has at
  most 366 days, and at least 365.
\<close>

function year_search :: "int \<Rightarrow> int \<Rightarrow> int" where
  "year_search y d = (if DayFromYear (y + 1) \<le> d then year_search (y + 1) d else y)"
  by pat_completeness auto
termination
proof (relation "measure (\<lambda>(y, d). nat (d + 1 - DayFromYear (y + 1)))")
  show "wf (measure (\<lambda>(y, d). nat (d + 1 - DayFromYear (y + 1))))" by simp
next
  fix y d :: int
  assume le: "DayFromYear (y + 1) \<le> d"
  have a: "(y + 1 - 1969) div 4 \<le> (y + 1 + 1 - 1969) div 4"
    by (rule zdiv_mono1) simp_all
  have "(y + 1 + 1 - 1901) div 100 \<le> (y + 1 - 1901 + 100) div 100"
    by (rule zdiv_mono1) simp_all
  also have "\<dots> = (y + 1 - 1901) div 100 + 1"
    by (rule div_add_self2) simp
  finally have b: "(y + 1 + 1 - 1901) div 100 \<le> (y + 1 - 1901) div 100 + 1" .
  have c: "(y + 1 - 1601) div 400 \<le> (y + 1 + 1 - 1601) div 400"
    by (rule zdiv_mono1) simp_all
  have "DayFromYear (y + 1) < DayFromYear (y + 1 + 1)"
    using a b c by (simp add: DayFromYear_def)
  with le show "((y + 1, d), (y, d)) \<in> measure (\<lambda>(y, d). nat (d + 1 - DayFromYear (y + 1)))"
    by simp
qed

declare year_search.simps [simp del]

definition YearFromTime :: "int \<Rightarrow> int" where
  "YearFromTime t =
     (let d = Day t in year_search (1970 + (if 0 \<le> d then d div 366 else d div 365)) d)"

definition InLeapYear :: "int \<Rightarrow> int" where
  "InLeapYear t = (if DaysInYear (YearFromTime t) = 366 then 1 else 0)"

definition DayWithinYear :: "int \<Rightarrow> int" where
  "DayWithinYear t = Day t - DayFromYear (YearFromTime t)"

definition MonthFromTime :: "int \<Rightarrow> int" where
  "MonthFromTime t =
     (let d = DayWithinYear t; l = InLeapYear t in
      if d < 31 then 0
      else if d < 59 + l then 1
      else if d < 90 + l then 2
      else if d < 120 + l then 3
      else if d < 151 + l then 4
      else if d < 181 + l then 5
      else if d < 212 + l then 6
      else if d < 243 + l then 7
      else if d < 273 + l then 8
      else if d < 304 + l then 9
      else if d < 334 + l then 10
      else 11)"

definition DateFromTime :: "int \<Rightarrow> int" where
  "DateFromTime t =
     (let d = DayWithinYear t; l = InLeapYear t; m = MonthFromTime t in
      if m = 0 then d + 1
      else if m = 1 then d - 30
      else if m = 2 then d - 58 - l
      else if m = 3 then d - 89 - l
      else if m = 4 then d - 119 - l
      else if m = 5 then d - 150 - l
      else if m = 6 then d - 180 - l
      else if m = 7 then d - 211 - l
      else if m = 8 then d - 242 - l
      else if m = 9 then d - 272 - l
      else if m = 10 then d - 303 - l
      else d - 333 - l)"

text \<open>
  \<^verbatim>\<open>MakeDay(year, month, date)\<close>: the day number of the first of month
  \<open>month mod 12\<close> of year \<open>year + month div 12\<close>, plus \<open>date - 1\<close>. \<open>month_start\<close>
  is the number of days before the first of month \<open>mn\<close> (0 to 11) in year \<open>ym\<close>.
\<close>

definition month_start :: "int \<Rightarrow> int \<Rightarrow> int" where
  "month_start ym mn =
     (let l = (if DaysInYear ym = 366 then 1 else 0) in
      if mn = 0 then 0
      else if mn = 1 then 31
      else if mn = 2 then 59 + l
      else if mn = 3 then 90 + l
      else if mn = 4 then 120 + l
      else if mn = 5 then 151 + l
      else if mn = 6 then 181 + l
      else if mn = 7 then 212 + l
      else if mn = 8 then 243 + l
      else if mn = 9 then 273 + l
      else if mn = 10 then 304 + l
      else 334 + l)"

definition MakeDay :: "int \<Rightarrow> int \<Rightarrow> int \<Rightarrow> int" where
  "MakeDay year month date =
     (let ym = year + month div 12; mn = month mod 12
      in DayFromYear ym + month_start ym mn + date - 1)"

definition MakeDate :: "int \<Rightarrow> int \<Rightarrow> int" where
  "MakeDate day time = day * msPerDay + time"

text \<open>
  \<^verbatim>\<open>UTC(t) = t - LocalTZA(t, false)\<close>: the offset of the server's local time zone
  at local time \<open>t\<close>, in milliseconds (positive east of Greenwich), is a
  parameter.
\<close>

definition UTC :: "(int \<Rightarrow> int) \<Rightarrow> int \<Rightarrow> int" where
  "UTC LocalTZA t = t - LocalTZA t"

definition TimeClip :: "int \<Rightarrow> int option" where
  "TimeClip time = (if \<bar>time\<bar> > 8640000000000000 then None else Some time)"

text \<open>
  \<^verbatim>\<open>new Date(y, m, dt)\<close>: a year from 0 to 99 stands for 1900 + y; the fields are
  local time. The result is the time value, or \<open>None\<close> for an invalid date.
\<close>

definition new_Date :: "(int \<Rightarrow> int) \<Rightarrow> int \<Rightarrow> int \<Rightarrow> int \<Rightarrow> int option" where
  "new_Date LocalTZA y m dt =
     (let yr = (if 0 \<le> y \<and> y \<le> 99 then 1900 + y else y);
          finalDate = MakeDate (MakeDay yr m dt) 0
      in TimeClip (UTC LocalTZA finalDate))"

text \<open>Decimal digits of a number, \<^verbatim>\<open>padStart\<close>, and the year of an ISO string.\<close>

fun digits :: "nat \<Rightarrow> string" where
  "digits n = (if n < 10 then [char_of (48 + n)] else digits (n div 10) @ [char_of (48 + n mod 10)])"

declare digits.simps [simp del]

definition padStart :: "nat \<Rightarrow> char \<Rightarrow> string \<Rightarrow> string" where
  "padStart n c s = replicate (n - length s) c @ s"

definition iso_year :: "int \<Rightarrow> string" where
  "iso_year y =
     (if 0 \<le> y \<and> y \<le> 9999 then padStart 4 CHR ''0'' (digits (nat y))
      else (if 0 \<le> y then ''+'' else ''-'') @ padStart 6 CHR ''0'' (digits (nat \<bar>y\<bar>)))"

definition pad_int :: "nat \<Rightarrow> int \<Rightarrow> string" where
  "pad_int n v = padStart n CHR ''0'' (digits (nat v))"

text \<open>
  \<^verbatim>\<open>toISOString\<close> throws a \<^verbatim>\<open>RangeError\<close> on an invalid date. \<open>NotDigits\<close> marks a
  month token outside the model, see \<open>js_Number\<close>.
\<close>

datatype js_error = RangeError | NotDigits

definition toISOString :: "int option \<Rightarrow> js_error + string" where
  "toISOString d =
     (case d of
        None \<Rightarrow> Inl RangeError
      | Some tv \<Rightarrow>
          Inr (iso_year (YearFromTime tv) @ ''-'' @ pad_int 2 (MonthFromTime tv + 1) @ ''-''
               @ pad_int 2 (DateFromTime tv) @ ''T''
               @ pad_int 2 (TimeWithinDay tv div 3600000) @ '':''
               @ pad_int 2 (TimeWithinDay tv div 60000 mod 60) @ '':''
               @ pad_int 2 (TimeWithinDay tv div 1000 mod 60) @ ''.''
               @ pad_int 3 (TimeWithinDay tv mod 1000) @ ''Z''))"

section \<open>Resolving a month token to a period\<close>

text \<open>\<^verbatim>\<open>ym.split('-')\<close>: the pieces between the separators, at least one.\<close>

fun split_go :: "char \<Rightarrow> string \<Rightarrow> string \<Rightarrow> string list" where
  "split_go sep cur [] = [rev cur]"
| "split_go sep cur (c # cs) =
     (if c = sep then rev cur # split_go sep [] cs else split_go sep (c # cur) cs)"

definition split :: "char \<Rightarrow> string \<Rightarrow> string list" where
  "split sep s = split_go sep [] s"

text \<open>
  \<^verbatim>\<open>Number(s)\<close> on a string of ASCII digits (the empty string gives 0), as the
  exact integer: a JavaScript number is exact up to 2 ^ 53, and the strings the
  callers admit have at most four digits. Every other string is outside the
  model (\<open>None\<close>): both callers test the token against \<^verbatim>\<open>/^\d{4}-\d{2}$/\<close> first,
  or build it from the clock.
\<close>

definition is_digit :: "char \<Rightarrow> bool" where
  "is_digit c = (48 \<le> (of_char c :: nat) \<and> (of_char c :: nat) \<le> 57)"

definition digit_value :: "char \<Rightarrow> int" where
  "digit_value c = int (of_char c) - 48"

definition js_Number :: "string \<Rightarrow> int option" where
  "js_Number s =
     (if list_all is_digit s then Some (foldl (\<lambda>n c. 10 * n + digit_value c) 0 s) else None)"

text \<open>The period \<^verbatim>\<open>{ from, to }\<close> of two \<^verbatim>\<open>YYYY-MM-DD\<close> strings.\<close>

record period =
  period_from :: string
  period_to :: string

text \<open>
  \<^verbatim>\<open>function firstLastDayOfMonth(ym: string) {
    const [yy, mm] = ym.split('-').map(Number);
    const first = new Date(yy, mm - 1, 1);
    const last = new Date(yy, mm, 0);
    const fmt = (d: Date) => d.toISOString().slice(0, 10);
    return { from: fmt(first), to: fmt(last) };
  }\<close>
  With fewer than two pieces \<^verbatim>\<open>mm\<close> is \<^verbatim>\<open>undefined\<close>, both dates are invalid and
  \<^verbatim>\<open>toISOString\<close> throws.
\<close>

definition fmt :: "int option \<Rightarrow> js_error + string" where
  "fmt d = (case toISOString d of Inl e \<Rightarrow> Inl e | Inr s \<Rightarrow> Inr (take 10 s))"

definition firstLastDayOfMonth :: "(int \<Rightarrow> int) \<Rightarrow> string \<Rightarrow> js_error + period" where
  "firstLastDayOfMonth LocalTZA ym =
     (case split CHR ''-'' ym of
        a # b # _ \<Rightarrow>
          (case (js_Number a, js_Number b) of
             (Some yy, Some mm) \<Rightarrow>
               (let first = new_Date LocalTZA yy (mm - 1) 1;
                    last = new_Date LocalTZA yy mm 0
                in case fmt first of
                     Inl e \<Rightarrow> Inl e
                   | Inr f \<Rightarrow>
                       (case fmt last of
                          Inl e \<Rightarrow> Inl e
                        | Inr l \<Rightarrow> Inr \<lparr>period_from = f, period_to = l\<rparr>))
           | _ \<Rightarrow> Inl NotDigits)
      | _ \<Rightarrow> Inl RangeError)"

text \<open>The tests \<^verbatim>\<open>/^\d{4}-\d{2}$/\<close> and \<^verbatim>\<open>/^\d{4}-\d{2}-\d{2}$/\<close>.\<close>

definition YM_test :: "string \<Rightarrow> bool" where
  "YM_test s =
     (length s = 7 \<and> list_all is_digit (take 4 s) \<and> s ! 4 = CHR ''-''
      \<and> list_all is_digit (drop 5 s))"

definition YMD_test :: "string \<Rightarrow> bool" where
  "YMD_test s =
     (length s = 10 \<and> list_all is_digit (take 4 s) \<and> s ! 4 = CHR ''-''
      \<and> list_all is_digit (take 2 (drop 5 s)) \<and> s ! 7 = CHR ''-''
      \<and> list_all is_digit (drop 8 s))"

text \<open>
  The calendar in the words of the specification: the number of days of month
  \<open>m\<close> (1 to 12) of year \<open>y\<close>, with 29 days for February in a leap year, and
  the string \<^verbatim>\<open>YYYY-MM-DD\<close> of a calendar day.
\<close>

definition leap_year :: "int \<Rightarrow> bool" where
  "leap_year y = (y mod 4 = 0 \<and> (y mod 100 \<noteq> 0 \<or> y mod 400 = 0))"

definition days_in_month :: "int \<Rightarrow> int \<Rightarrow> int" where
  "days_in_month y m =
     (if m = 2 then (if leap_year y then 29 else 28)
      else if m = 4 \<or> m = 6 \<or> m = 9 \<or> m = 11 then 30
      else 31)"

text \<open>The leap day of a year as a number: 1 in a leap year, 0 otherwise.\<close>

definition leap_day :: "int \<Rightarrow> int" where
  "leap_day y = (if leap_year y then 1 else 0)"

definition ymd_string :: "int \<Rightarrow> int \<Rightarrow> int \<Rightarrow> string" where
  "ymd_string y m d = pad_int 4 y @ ''-'' @ pad_int 2 m @ ''-'' @ pad_int 2 d"

section \<open>Monthly summary: rows, running totals, category map\<close>

text \<open>
  The store returns rows with the columns \<^verbatim>\<open>type, amount, category_id\<close>.
  The handler reads \<^verbatim>\<open>Number(r.amount)\<close>, so a row carries its amount as a
  number. The type of numbers is a parameter \<open>'a\<close>: the definitions only use
  \<open>0\<close>, \<open>+\<close>, \<open>-\<close> and \<open><\<close>, in the order in which the code applies them, and the
  theorems about sums assume no algebraic law (addition of JavaScript numbers is
  not associative). \<open>row_category_id = None\<close> is \<^verbatim>\<open>null\<close> (or \<^verbatim>\<open>undefined\<close>).
\<close>

record 'a row =
  row_type :: string
  row_amount :: 'a
  row_category_id :: "int option"

text \<open>
  \<^verbatim>\<open>new Map<number, number>()\<close>: a JavaScript Map iterates its entries in the
  order in which the keys were first inserted; \<^verbatim>\<open>set\<close> on a key that is present
  replaces the value and keeps the position.
\<close>

type_synonym 'a js_map = "(int \<times> 'a) list"

fun Map_get :: "'a js_map \<Rightarrow> int \<Rightarrow> 'a option" where
  "Map_get [] k = None"
| "Map_get ((k', v) # m) k = (if k' = k then Some v else Map_get m k)"

fun Map_set :: "'a js_map \<Rightarrow> int \<Rightarrow> 'a \<Rightarrow> 'a js_map" where
  "Map_set [] k v = [(k, v)]"
| "Map_set ((k', v') # m) k v = (if k' = k then (k, v) # m else (k', v') # Map_set m k v)"

text \<open>The variables of the loop: \<^verbatim>\<open>inc\<close>, \<^verbatim>\<open>exp\<close> and \<^verbatim>\<open>byCat\<close>.\<close>

record 'a loop_state =
  s_inc :: 'a
  s_exp :: 'a
  s_byCat :: "'a js_map"

definition loop_init :: "'a::zero loop_state" where
  "loop_init = \<lparr>s_inc = 0, s_exp = 0, s_byCat = []\<rparr>"

text \<open>
  One iteration of
  \<^verbatim>\<open>for (const r of rows ?? []) {
    const amt = Number(r.amount);
    if (r.type === 'income') inc += amt;
    else exp += amt;
    if (r.category_id != null) {
      byCat.set(r.category_id, (byCat.get(r.category_id) ?? 0) + amt);
    }
  }\<close>
\<close>

definition loop_body :: "'a::{zero,plus} loop_state \<Rightarrow> 'a row \<Rightarrow> 'a loop_state" where
  "loop_body s r =
     (let amt = row_amount r;
          s1 = (if row_type r = ''income'' then s\<lparr>s_inc := s_inc s + amt\<rparr>
                else s\<lparr>s_exp := s_exp s + amt\<rparr>)
      in case row_category_id r of
           None \<Rightarrow> s1
         | Some c \<Rightarrow>
             s1\<lparr>s_byCat :=
                  Map_set (s_byCat s1) c
                    ((case Map_get (s_byCat s1) c of None \<Rightarrow> 0 | Some v \<Rightarrow> v) + amt)\<rparr>)"

definition run_loop :: "'a::{zero,plus} loop_state \<Rightarrow> 'a row list \<Rightarrow> 'a loop_state" where
  "run_loop s rows = foldl loop_body s rows"

text \<open>The entries of \<^verbatim>\<open>byCategory\<close>: \<^verbatim>\<open>{ category_id, total }\<close>.\<close>

record 'a cat_total =
  category_id :: int
  total :: 'a

text \<open>
  \<^verbatim>\<open>.sort((a, b) => b.total - a.total)\<close>. \<^verbatim>\<open>Array.prototype.sort\<close> is stable;
  with a comparator result above zero \<open>a\<close> is placed after \<open>b\<close>, otherwise the
  two keep their order. The model is the stable insertion sort with this
  comparator.
\<close>

definition compareFn :: "'a::minus cat_total \<Rightarrow> 'a cat_total \<Rightarrow> 'a" where
  "compareFn a b = total b - total a"

fun sort_insert :: "'a::{zero,minus,ord} cat_total \<Rightarrow> 'a cat_total list \<Rightarrow> 'a cat_total list" where
  "sort_insert a [] = [a]"
| "sort_insert a (b # bs) =
     (if 0 < compareFn a b then b # sort_insert a bs else a # b # bs)"

definition js_sort :: "'a::{zero,minus,ord} cat_total list \<Rightarrow> 'a cat_total list" where
  "js_sort xs = foldr sort_insert xs []"

text \<open>The response body \<^verbatim>\<open>{ month, from, to, inc, exp, net, byCategory }\<close>.\<close>

record 'a summary =
  month :: string
  from_date :: string
  to_date :: string
  inc :: 'a
  exp :: 'a
  net :: 'a
  byCategory :: "'a cat_total list"

text \<open>
  Lines 200 to 217 of the summary handler: the loop, \<^verbatim>\<open>net = inc - exp\<close>, the
  conversion of the map to the sorted sequence, and the body of the response.
\<close>

definition summarize ::
  "string \<Rightarrow> period \<Rightarrow> 'a::{zero,plus,minus,ord} row list \<Rightarrow> 'a summary" where
  "summarize m p rows =
     (let s = run_loop loop_init rows;
          net_v = s_inc s - s_exp s;
          byCategory_v =
            js_sort (map (\<lambda>(c, t). \<lparr>category_id = c, total = t\<rparr>) (s_byCat s))
      in \<lparr>month = m, from_date = period_from p, to_date = period_to p,
          inc = s_inc s, exp = s_exp s, net = net_v, byCategory = byCategory_v\<rparr>)"

text \<open>The sum of a list of numbers, added from the left starting at zero.\<close>

definition sum_left :: "'a::{zero,plus} list \<Rightarrow> 'a" where
  "sum_left xs = foldl (+) 0 xs"

text \<open>
  The totals in the words of the specification: the sum of the amounts of the
  rows of kind income, and the sum of the amounts of the rows of kind expense.
\<close>

definition is_income :: "'a row \<Rightarrow> bool" where
  "is_income r = (row_type r = ''income'')"

definition is_expense :: "'a row \<Rightarrow> bool" where
  "is_expense r = (row_type r = ''expense'')"

definition spec_income_total :: "'a::{zero,plus} row list \<Rightarrow> 'a" where
  "spec_income_total rows = sum_left (map row_amount (filter is_income rows))"

definition spec_expense_total :: "'a::{zero,plus} row list \<Rightarrow> 'a" where
  "spec_expense_total rows = sum_left (map row_amount (filter is_expense rows))"

section \<open>The handlers\<close>

text \<open>
  A value of \<^verbatim>\<open>req.query\<close> is a string, or an array or an object when the
  parameter is repeated or nested; \<open>None\<close> is an absent parameter.
\<close>

datatype query_value = QString string | QOther

record query =
  q_month :: "query_value option"
  q_from :: "query_value option"
  q_to :: "query_value option"
  q_type :: "query_value option"

text \<open>A JavaScript number that stands for an id, and the values used in filters.\<close>

datatype js_number = Num int | NaN

datatype js_value = JNumber js_number | JString string

text \<open>
  The same numbers as amounts: the integers and \<^verbatim>\<open>NaN\<close>, with the arithmetic and
  the comparisons that JavaScript has on them. An operation with \<^verbatim>\<open>NaN\<close> gives
  \<^verbatim>\<open>NaN\<close>, and every comparison with \<^verbatim>\<open>NaN\<close> is false.
\<close>

instantiation js_number :: "{zero,plus,minus,ord}"
begin

definition zero_js_number :: js_number where
  "zero_js_number = Num 0"

fun plus_js_number :: "js_number \<Rightarrow> js_number \<Rightarrow> js_number" where
  "plus_js_number (Num a) (Num b) = Num (a + b)"
| "plus_js_number _ _ = NaN"

fun minus_js_number :: "js_number \<Rightarrow> js_number \<Rightarrow> js_number" where
  "minus_js_number (Num a) (Num b) = Num (a - b)"
| "minus_js_number _ _ = NaN"

fun less_js_number :: "js_number \<Rightarrow> js_number \<Rightarrow> bool" where
  "less_js_number (Num a) (Num b) = (a < b)"
| "less_js_number _ _ = False"

fun less_eq_js_number :: "js_number \<Rightarrow> js_number \<Rightarrow> bool" where
  "less_eq_js_number (Num a) (Num b) = (a \<le> b)"
| "less_eq_js_number _ _ = False"

instance ..

end

text \<open>
  The request as the handlers read it: \<^verbatim>\<open>req.user.id\<close> (set by
  \<^verbatim>\<open>requireAuth\<close>), \<^verbatim>\<open>req.query\<close>, \<^verbatim>\<open>Number(req.params.id)\<close> and \<^verbatim>\<open>req.body\<close>.
\<close>

record 'b request =
  req_user :: string
  req_query :: query
  req_id :: js_number
  req_body :: 'b

text \<open>
  What a handler reads besides the request and the store: the profile lookup
  \<^verbatim>\<open>getProfileIdByAuthId\<close> (\<open>None\<close> is \<^verbatim>\<open>null\<close>), the local clock
  (\<^verbatim>\<open>getFullYear()\<close> and \<^verbatim>\<open>getMonth()\<close> of \<^verbatim>\<open>new Date()\<close>) and the offset of the
  local time zone.
\<close>

record env =
  getProfileIdByAuthId :: "string \<Rightarrow> int option"
  getFullYear :: int
  getMonth :: int
  LocalTZA :: "int \<Rightarrow> int"

text \<open>
  The requests a handler sends to the store through the query builder:
  \<^verbatim>\<open>from(table).select(columns)\<close> with its filters and order,
  \<^verbatim>\<open>from(table).update(patch)\<close> with its filters and the columns of
  \<^verbatim>\<open>.select(columns).single()\<close>, and \<^verbatim>\<open>from(table).delete()\<close> with its filters.
\<close>

datatype filter = Eq string js_value | Gte string js_value | Lte string js_value

datatype 'p store_request =
    Select string string "filter list" "(string \<times> bool) option"
  | Update string 'p "filter list" string
  | Delete string "filter list"

text \<open>
  The answer \<^verbatim>\<open>{ data, error }\<close> of the store; \<open>error\<close> holds
  \<^verbatim>\<open>error.message\<close>.
\<close>

record 'd store_result =
  data :: "'d option"
  error :: "string option"

text \<open>
  What a handler does with the response: a status and a JSON body, or an
  exception that leaves the handler.
\<close>

datatype ('e, 'd) body = Detail string | Flatten 'e | Data 'd | Ok_true

datatype ('e, 'd) response = Response nat "('e, 'd) body" | Throws js_error

definition String_int :: "int \<Rightarrow> string" where
  "String_int i = (if i < 0 then ''-'' @ digits (nat (- i)) else digits (nat i))"

text \<open>
  \<^verbatim>\<open>const d = new Date();
  return `${d.getFullYear()}-${String(d.getMonth() + 1).padStart(2, '0')}`;\<close>
\<close>

definition current_month :: "env \<Rightarrow> string" where
  "current_month e =
     String_int (getFullYear e) @ ''-'' @ padStart 2 CHR ''0'' (String_int (getMonth e + 1))"

text \<open>
  \<^verbatim>\<open>typeof req.query.month === 'string' && YM.test(req.query.month)
    ? req.query.month : <the current month>\<close>
\<close>

definition summary_month_token :: "env \<Rightarrow> query \<Rightarrow> string" where
  "summary_month_token e q =
     (case q_month q of
        Some (QString s) \<Rightarrow> if YM_test s then s else current_month e
      | _ \<Rightarrow> current_month e)"

definition summary_request :: "int \<Rightarrow> period \<Rightarrow> unit store_request" where
  "summary_request userId p =
     Select ''transaction'' ''type, amount, category_id''
       [Eq ''user_id'' (JNumber (Num userId)),
        Gte ''occurred_at'' (JString (period_from p)),
        Lte ''occurred_at'' (JString (period_to p))]
       None"

definition not_found :: "'p store_request list \<times> ('e, 'd) response" where
  "not_found = ([], Response 404 (Detail ''Perfil no encontrado''))"

text \<open>
  \<^verbatim>\<open>router.get('/summary/month', ...)\<close>. The result is the list of requests sent
  to the transaction store and the response. \<^verbatim>\<open>!userId\<close> holds for \<^verbatim>\<open>null\<close> and
  for 0.
\<close>

definition summary_month ::
  "env \<Rightarrow> (unit store_request \<Rightarrow> 'a row list store_result) \<Rightarrow> 'b request
     \<Rightarrow> unit store_request list \<times> (unit, 'a::{zero,plus,minus,ord} summary) response" where
  "summary_month e store req =
     (case getProfileIdByAuthId e (req_user req) of
        None \<Rightarrow> not_found
      | Some userId \<Rightarrow>
          if userId = 0 then not_found
          else
            (let m = summary_month_token e (req_query req) in
             case firstLastDayOfMonth (LocalTZA e) m of
               Inl ex \<Rightarrow> ([], Throws ex)
             | Inr p \<Rightarrow>
                 (let q = summary_request userId p; r = store q in
                  case error r of
                    Some msg \<Rightarrow> ([q], Response 400 (Detail msg))
                  | None \<Rightarrow>
                      ([q], Response 200
                         (Data (summarize m p (case data r of None \<Rightarrow> [] | Some rows \<Rightarrow> rows)))))))"

text \<open>
  \<^verbatim>\<open>listQuerySchema.safeParse(req.query)\<close>: each field is optional; when present
  it must be a string that matches its pattern, or one of the two kinds. The
  error is the list of the fields that fail.
\<close>

record list_query =
  lq_month :: "string option"
  lq_from :: "string option"
  lq_to :: "string option"
  lq_type :: "string option"

definition optional_string :: "(string \<Rightarrow> bool) \<Rightarrow> query_value option \<Rightarrow> string option option" where
  "optional_string ok v =
     (case v of
        None \<Rightarrow> Some None
      | Some (QString s) \<Rightarrow> if ok s then Some (Some s) else None
      | Some QOther \<Rightarrow> None)"

definition type_enum :: "string \<Rightarrow> bool" where
  "type_enum s = (s = ''income'' \<or> s = ''expense'')"

definition listQuerySchema :: "query \<Rightarrow> string list + list_query" where
  "listQuerySchema q =
     (case (optional_string YM_test (q_month q), optional_string YMD_test (q_from q),
            optional_string YMD_test (q_to q), optional_string type_enum (q_type q)) of
        (Some m, Some f, Some t, Some k) \<Rightarrow>
          Inr \<lparr>lq_month = m, lq_from = f, lq_to = t, lq_type = k\<rparr>
      | (m, f, t, k) \<Rightarrow>
          Inl ((if m = None then [''month''] else []) @ (if f = None then [''from''] else [])
               @ (if t = None then [''to''] else []) @ (if k = None then [''type''] else [])))"

text \<open>A string is truthy when it is present and not empty.\<close>

definition truthy :: "string option \<Rightarrow> bool" where
  "truthy v = (case v of None \<Rightarrow> False | Some s \<Rightarrow> s \<noteq> [])"

definition list_request :: "int \<Rightarrow> string option \<Rightarrow> string option \<Rightarrow> string option \<Rightarrow> unit store_request" where
  "list_request userId from_v to_v type_v =
     Select ''transaction'' ''id, amount, type, category_id, description, occurred_at''
       ([Eq ''user_id'' (JNumber (Num userId))]
        @ (if truthy from_v then [Gte ''occurred_at'' (JString (the from_v))] else [])
        @ (if truthy to_v then [Lte ''occurred_at'' (JString (the to_v))] else [])
        @ (if truthy type_v then [Eq ''type'' (JString (the type_v))] else []))
       (Some (''occurred_at'', False))"

text \<open>\<^verbatim>\<open>router.get('/', ...)\<close> of the transactions.\<close>

definition list_transactions ::
  "env \<Rightarrow> (unit store_request \<Rightarrow> 'r list store_result) \<Rightarrow> 'b request
     \<Rightarrow> unit store_request list \<times> (string list, 'r list) response" where
  "list_transactions e store req =
     (case getProfileIdByAuthId e (req_user req) of
        None \<Rightarrow> not_found
      | Some userId \<Rightarrow>
          if userId = 0 then not_found
          else
            (case listQuerySchema (req_query req) of
               Inl errs \<Rightarrow> ([], Response 400 (Flatten errs))
             | Inr parsed \<Rightarrow>
                 (case (if truthy (lq_month parsed)
                        then (case firstLastDayOfMonth (LocalTZA e) (the (lq_month parsed)) of
                                Inl ex \<Rightarrow> Inl ex
                              | Inr r \<Rightarrow> Inr (Some (period_from r), Some (period_to r)))
                        else Inr (lq_from parsed, lq_to parsed)) of
                    Inl ex \<Rightarrow> ([], Throws ex)
                  | Inr (from_v, to_v) \<Rightarrow>
                      (let q = list_request userId from_v to_v (lq_type parsed); r = store q in
                       case error r of
                         Some msg \<Rightarrow> ([q], Response 400 (Detail msg))
                       | None \<Rightarrow>
                           ([q], Response 200
                              (Data (case data r of None \<Rightarrow> [] | Some rows \<Rightarrow> rows)))))))"

text \<open>
  The goals. \<^verbatim>\<open>updateSchema.safeParse(req.body)\<close> is a parameter: it gives the
  flattened error or the parsed data.
  \<^verbatim>\<open>router.patch('/:id', requireAuth, async (req: any, res) => {
    const id = Number(req.params.id);
    const parse = updateSchema.safeParse(req.body);
    if (!parse.success) return res.status(400).json(parse.error.flatten());
    const { data, error } = await supabase.from('financial_goal')
      .update(parse.data).eq('id', id).select().single();
    if (error) return res.status(400).json({ detail: error.message });
    res.json(data);
  });\<close>
\<close>

definition goals_patch ::
  "('b \<Rightarrow> 'e + 'p) \<Rightarrow> ('p store_request \<Rightarrow> 'd store_result) \<Rightarrow> 'b request
     \<Rightarrow> 'p store_request list \<times> ('e, 'd option) response" where
  "goals_patch updateSchema store req =
     (let id = req_id req in
      case updateSchema (req_body req) of
        Inl err \<Rightarrow> ([], Response 400 (Flatten err))
      | Inr parsed \<Rightarrow>
          (let q = Update ''financial_goal'' parsed [Eq ''id'' (JNumber id)] ''*''; r = store q in
           case error r of
             Some msg \<Rightarrow> ([q], Response 400 (Detail msg))
           | None \<Rightarrow> ([q], Response 200 (Data (data r)))))"

text \<open>
  \<^verbatim>\<open>router.delete('/:id', requireAuth, async (req: any, res) => {
    const id = Number(req.params.id);
    const { error } = await supabase.from('financial_goal').delete().eq('id', id);
    if (error) return res.status(400).json({ detail: error.message });
    res.json({ ok: true });
  });\<close>
\<close>

definition goals_delete ::
  "('p store_request \<Rightarrow> 'd store_result) \<Rightarrow> 'b request
     \<Rightarrow> 'p store_request list \<times> (unit, unit) response" where
  "goals_delete store req =
     (let id = req_id req; q = Delete ''financial_goal'' [Eq ''id'' (JNumber id)]; r = store q in
      case error r of
        Some msg \<Rightarrow> ([q], Response 400 (Detail msg))
      | None \<Rightarrow> ([q], Response 200 Ok_true))"

text \<open>
  The transactions. The parsed patch of \<^verbatim>\<open>updateSchema\<close> has the optional fields
  of \<^verbatim>\<open>createSchema\<close>; \<^verbatim>\<open>delete patch.user_id\<close> removes nothing from it.
\<close>

record 'a txn_patch =
  p_amount :: "'a option"
  p_type :: "string option"
  p_category_id :: "int option"
  p_description :: "string option"
  p_occurred_at :: "string option"

definition id_invalid :: string where
  "id_invalid = ''id inv'' @ [CHR 0xE1] @ ''lido''"

definition fecha_invalida :: string where
  "fecha_invalida = ''Fecha inv'' @ [CHR 0xE1] @ ''lida (YYYY-MM-DD)''"

definition transactions_patch ::
  "env \<Rightarrow> ('b \<Rightarrow> 'e + 'a txn_patch) \<Rightarrow> ('a txn_patch store_request \<Rightarrow> 'd store_result)
     \<Rightarrow> 'b request \<Rightarrow> 'a txn_patch store_request list \<times> ('e, 'd option) response" where
  "transactions_patch e updateSchema store req =
     (let id = req_id req in
      if id = NaN then ([], Response 400 (Detail id_invalid))
      else
        (case updateSchema (req_body req) of
           Inl err \<Rightarrow> ([], Response 400 (Flatten err))
         | Inr parsed \<Rightarrow>
             (case getProfileIdByAuthId e (req_user req) of
                None \<Rightarrow> not_found
              | Some userId \<Rightarrow>
                  if userId = 0 then not_found
                  else if truthy (p_occurred_at parsed) \<and> \<not> YMD_test (the (p_occurred_at parsed))
                  then ([], Response 400 (Detail fecha_invalida))
                  else
                    (let q = Update ''transaction'' parsed
                               [Eq ''id'' (JNumber id), Eq ''user_id'' (JNumber (Num userId))]
                               ''id, amount, type, category_id, description, occurred_at'';
                         r = store q in
                     case error r of
                       Some msg \<Rightarrow> ([q], Response 400 (Detail msg))
                     | None \<Rightarrow> ([q], Response 200 (Data (data r)))))))"

definition transactions_delete ::
  "env \<Rightarrow> ('p store_request \<Rightarrow> 'd store_result) \<Rightarrow> 'b request
     \<Rightarrow> 'p store_request list \<times> (unit, unit) response" where
  "transactions_delete e store req =
     (let id = req_id req in
      if id = NaN then ([], Response 400 (Detail id_invalid))
      else
        (case getProfileIdByAuthId e (req_user req) of
           None \<Rightarrow> not_found
         | Some userId \<Rightarrow>
             if userId = 0 then not_found
             else
               (let q = Delete ''transaction''
                          [Eq ''id'' (JNumber id), Eq ''user_id'' (JNumber (Num userId))];
                    r = store q in
                case error r of
                  Some msg \<Rightarrow> ([q], Response 400 (Detail msg))
                | None \<Rightarrow> ([q], Response 200 Ok_true))))"

section \<open>Notions of the specification\<close>

text \<open>
  The categories carried by some row, and the sum of the amounts of the rows
  that carry a category, whatever their kind.
\<close>

definition categories :: "'a row list \<Rightarrow> int set" where
  "categories rows = {c. \<exists>r \<in> set rows. row_category_id r = Some c}"

definition category_total :: "'a::{zero,plus} row list \<Rightarrow> int \<Rightarrow> 'a" where
  "category_total rows c =
     sum_left (map row_amount (filter (\<lambda>r. row_category_id r = Some c) rows))"



text \<open>A month parameter that is present and is not a string of the form YYYY-MM.\<close>

definition month_fails_pattern :: "query_value \<Rightarrow> bool" where
  "month_fails_pattern v = (case v of QString s \<Rightarrow> \<not> YM_test s | QOther \<Rightarrow> True)"

definition no_profile :: "env \<Rightarrow> 'b request \<Rightarrow> bool" where
  "no_profile e req =
     (getProfileIdByAuthId e (req_user req) = None \<or> getProfileIdByAuthId e (req_user req) = Some 0)"

text \<open>
  A clock whose year has four digits and whose month index is from 0 to 11, and
  the rows of an answer of the store (\<^verbatim>\<open>rows ?? []\<close>).
\<close>

definition clock_ok :: "env \<Rightarrow> bool" where
  "clock_ok e =
     (1000 \<le> getFullYear e \<and> getFullYear e \<le> 9999 \<and> 0 \<le> getMonth e \<and> getMonth e \<le> 11)"

definition rows_of :: "'a row list store_result \<Rightarrow> 'a row list" where
  "rows_of r = (case data r of None \<Rightarrow> [] | Some rows \<Rightarrow> rows)"


section \<open>Example values\<close>

text \<open>
  A server whose local time is UTC, on a day of November 2026, with the profiles
  7 and 8; a local time zone one hour east of Greenwich; stores that answer with
  no rows, with an error, and with four rows; and some requests.
\<close>

definition utc_env :: env where
  "utc_env =
     \<lparr>getProfileIdByAuthId =
        (\<lambda>u. if u = ''auth-1'' then Some 7 else if u = ''auth-2'' then Some 8 else None),
      getFullYear = 2026, getMonth = 10, LocalTZA = (\<lambda>t. 0)\<rparr>"

definition utc_plus_1 :: "int \<Rightarrow> int" where
  "utc_plus_1 t = 3600000"

definition empty_store :: "unit store_request \<Rightarrow> int row list store_result" where
  "empty_store q = \<lparr>data = Some [], error = None\<rparr>"

definition empty_list_store :: "unit store_request \<Rightarrow> unit list store_result" where
  "empty_list_store q = \<lparr>data = Some [], error = None\<rparr>"

definition failing_store :: "unit store_request \<Rightarrow> int row list store_result" where
  "failing_store q = \<lparr>data = None, error = Some ''connection refused''\<rparr>"

definition four_rows :: "int row list" where
  "four_rows =
     [\<lparr>row_type = ''expense'', row_amount = 10, row_category_id = Some 1\<rparr>,
      \<lparr>row_type = ''expense'', row_amount = 50, row_category_id = Some 2\<rparr>,
      \<lparr>row_type = ''expense'', row_amount = 10, row_category_id = Some 3\<rparr>,
      \<lparr>row_type = ''income'', row_amount = 20, row_category_id = Some 1\<rparr>]"

text \<open>Three rows of three categories, the second with the amount \<^verbatim>\<open>NaN\<close>.\<close>

definition nan_rows :: "js_number row list" where
  "nan_rows =
     [\<lparr>row_type = ''expense'', row_amount = Num 10, row_category_id = Some 1\<rparr>,
      \<lparr>row_type = ''expense'', row_amount = NaN, row_category_id = Some 2\<rparr>,
      \<lparr>row_type = ''expense'', row_amount = Num 50, row_category_id = Some 3\<rparr>]"

definition bad_month_request :: "unit request" where
  "bad_month_request =
     \<lparr>req_user = ''auth-1'',
      req_query = \<lparr>q_month = Some (QString ''2024-2''), q_from = None, q_to = None, q_type = None\<rparr>,
      req_id = NaN, req_body = ()\<rparr>"

definition feb_request :: "unit request" where
  "feb_request =
     \<lparr>req_user = ''auth-1'',
      req_query = \<lparr>q_month = Some (QString ''2024-02''), q_from = None, q_to = None, q_type = None\<rparr>,
      req_id = NaN, req_body = ()\<rparr>"

definition feb_2024 :: period where
  "feb_2024 = \<lparr>period_from = ''2024-02-01'', period_to = ''2024-02-29''\<rparr>"

definition nov_2026 :: period where
  "nov_2026 = \<lparr>period_from = ''2026-11-01'', period_to = ''2026-11-30''\<rparr>"

definition goal_schema :: "string \<Rightarrow> string + string" where
  "goal_schema b = (if b = [] then Inl ''Required'' else Inr b)"

definition goal_store :: "string store_request \<Rightarrow> string store_result" where
  "goal_store q = \<lparr>data = Some ''goal 5'', error = None\<rparr>"

definition txn_schema :: "string \<Rightarrow> string + int txn_patch" where
  "txn_schema b =
     (if b = [] then Inl ''Required''
      else Inr \<lparr>p_amount = Some 12, p_type = None, p_category_id = None,
                p_description = Some b, p_occurred_at = Some ''2024-02-10''\<rparr>)"

definition txn_store :: "int txn_patch store_request \<Rightarrow> string store_result" where
  "txn_store q = \<lparr>data = Some ''transaction 5'', error = None\<rparr>"

definition id5_request :: "string request" where
  "id5_request =
     \<lparr>req_user = ''auth-1'',
      req_query = \<lparr>q_month = None, q_from = None, q_to = None, q_type = None\<rparr>,
      req_id = Num 5, req_body = ''x''\<rparr>"

section \<open>The income and expense totals\<close>

lemma run_loop_Nil: "run_loop s [] = s"
  by (simp add: run_loop_def)

lemma run_loop_Cons: "run_loop s (r # rows) = run_loop (loop_body s r) rows"
  by (simp add: run_loop_def)

lemma run_loop_append: "run_loop s (xs @ ys) = run_loop (run_loop s xs) ys"
  by (simp add: run_loop_def)

lemma loop_body_inc:
  "s_inc (loop_body s r) = (if row_type r = ''income'' then s_inc s + row_amount r else s_inc s)"
  by (simp add: loop_body_def Let_def split: option.split)

lemma loop_body_exp:
  "s_exp (loop_body s r) = (if row_type r = ''income'' then s_exp s else s_exp s + row_amount r)"
  by (simp add: loop_body_def Let_def split: option.split)

lemma run_loop_inc:
  "s_inc (run_loop s rows) =
     foldl (+) (s_inc s) (map row_amount (filter (\<lambda>r. row_type r = ''income'') rows))"
  by (induction rows arbitrary: s) (simp_all add: run_loop_Nil run_loop_Cons loop_body_inc)

lemma run_loop_exp:
  "s_exp (run_loop s rows) =
     foldl (+) (s_exp s) (map row_amount (filter (\<lambda>r. row_type r \<noteq> ''income'') rows))"
  by (induction rows arbitrary: s) (simp_all add: run_loop_Nil run_loop_Cons loop_body_exp)

lemma summarize_inc: "inc (summarize m p rows) = s_inc (run_loop loop_init rows)"
  by (simp add: summarize_def Let_def)

lemma summarize_exp: "exp (summarize m p rows) = s_exp (run_loop loop_init rows)"
  by (simp add: summarize_def Let_def)

lemma summarize_net:
  "net (summarize m p rows) = s_inc (run_loop loop_init rows) - s_exp (run_loop loop_init rows)"
  by (simp add: summarize_def Let_def)

text \<open>
  Claim C7. The \<open>net\<close> of the summary is \<open>inc\<close> minus \<open>exp\<close>, for every list of
  rows: it is the one subtraction of the sum of the other rows from the sum of
  the income rows.
\<close>

theorem summarize_net_is_inc_minus_exp:
  "net (summarize m p rows) = inc (summarize m p rows) - exp (summarize m p rows)
   \<and> net (summarize m p rows) =
       spec_income_total rows - sum_left (map row_amount (filter (\<lambda>r. \<not> is_income r) rows))"
proof -
  have "s_inc (run_loop loop_init rows) = spec_income_total rows"
    by (simp add: run_loop_inc loop_init_def spec_income_total_def sum_left_def
        is_income_def [abs_def])
  moreover have "s_exp (run_loop loop_init rows)
      = sum_left (map row_amount (filter (\<lambda>r. \<not> is_income r) rows))"
    by (simp add: run_loop_exp loop_init_def sum_left_def is_income_def [abs_def])
  ultimately show ?thesis
    by (simp add: summarize_inc summarize_exp summarize_net)
qed

text \<open>
  Claim C3, as amended. \<open>inc\<close> is the sum of the amounts of exactly the rows of
  kind income, and \<open>exp\<close> is the sum of the amounts of all the other rows: the
  rows of kind expense and the rows of any other kind. Each sum adds the amounts
  in the order of the rows, in the one pass \<open>run_loop\<close>. When every row is of
  kind income or expense, \<open>exp\<close> is the sum over the rows of kind expense.
\<close>

theorem summarize_inc_exp_sums:
  "inc (summarize m p rows) = spec_income_total rows
   \<and> exp (summarize m p rows) =
       sum_left (map row_amount (filter (\<lambda>r. \<not> is_income r) rows))
   \<and> ((\<forall>r \<in> set rows. is_income r \<or> is_expense r) \<longrightarrow>
        exp (summarize m p rows) = spec_expense_total rows)"
proof -
  have i: "inc (summarize m p rows) = spec_income_total rows"
    by (simp add: summarize_inc run_loop_inc sum_left_def loop_init_def spec_income_total_def
        is_income_def [abs_def])
  have e: "exp (summarize m p rows) =
       sum_left (map row_amount (filter (\<lambda>r. \<not> is_income r) rows))"
    by (simp add: summarize_exp run_loop_exp sum_left_def loop_init_def is_income_def [abs_def])
  have "filter (\<lambda>r. \<not> is_income r) rows = filter is_expense rows"
    if "\<forall>r \<in> set rows. is_income r \<or> is_expense r"
    using that by (intro filter_cong) (auto simp: is_income_def is_expense_def)
  with i e show ?thesis by (simp add: spec_expense_total_def)
qed

theorem summarize_inc_exp_sums_witness:
  "inc (summarize ''2024-02'' feb_2024
        [\<lparr>row_type = ''income'', row_amount = (100::int), row_category_id = Some 1\<rparr>,
         \<lparr>row_type = ''expense'', row_amount = 30, row_category_id = None\<rparr>,
         \<lparr>row_type = ''transfer'', row_amount = 5, row_category_id = Some 1\<rparr>]) = 100
   \<and> exp (summarize ''2024-02'' feb_2024
        [\<lparr>row_type = ''income'', row_amount = (100::int), row_category_id = Some 1\<rparr>,
         \<lparr>row_type = ''expense'', row_amount = 30, row_category_id = None\<rparr>,
         \<lparr>row_type = ''transfer'', row_amount = 5, row_category_id = Some 1\<rparr>]) = 35
   \<and> exp (summarize ''2024-02'' feb_2024 four_rows) = spec_expense_total four_rows
   \<and> spec_expense_total four_rows = 70"
proof -
  have k: "\<forall>r \<in> set four_rows. is_income r \<or> is_expense r"
    by (simp add: four_rows_def is_income_def is_expense_def)
  have v: "spec_expense_total four_rows = 70"
    by (simp add: spec_expense_total_def sum_left_def four_rows_def is_expense_def)
  from summarize_inc_exp_sums [of "''2024-02''" feb_2024
      "[\<lparr>row_type = ''income'', row_amount = (100::int), row_category_id = Some 1\<rparr>,
        \<lparr>row_type = ''expense'', row_amount = 30, row_category_id = None\<rparr>,
        \<lparr>row_type = ''transfer'', row_amount = 5, row_category_id = Some 1\<rparr>]"]
    summarize_inc_exp_sums [of "''2024-02''" feb_2024 four_rows] k v
  show ?thesis
    by (simp add: sum_left_def spec_income_total_def is_income_def)
qed

text \<open>
  Claim C3 as stated fails: a row whose kind is neither income nor expense is
  added to \<open>exp\<close>, so \<open>exp\<close> is not the sum over the rows of kind expense.
\<close>

theorem other_kind_counted_as_expense:
  "exp (summarize ''2024-02'' feb_2024
        [\<lparr>row_type = ''transfer'', row_amount = (5::int), row_category_id = None\<rparr>])
   \<noteq> spec_expense_total
        [\<lparr>row_type = ''transfer'', row_amount = (5::int), row_category_id = None\<rparr>]"
  by (simp add: summarize_def run_loop_def loop_body_def loop_init_def sum_left_def Let_def
      spec_expense_total_def is_expense_def)

section \<open>The category map\<close>

lemma Map_get_set: "Map_get (Map_set m k v) k' = (if k' = k then Some v else Map_get m k')"
  by (induction m) auto

lemma keys_Map_set_present: "k \<in> fst ` set m \<Longrightarrow> map fst (Map_set m k v) = map fst m"
proof (induction m)
  case Nil
  then show ?case by simp
next
  case (Cons p m)
  obtain k' v' where p: "p = (k', v')" by (cases p)
  show ?case
  proof (cases "k' = k")
    case True
    then show ?thesis by (simp add: p)
  next
    case False
    with Cons.prems have "k \<in> fst ` set m" by (auto simp: p)
    then show ?thesis using False by (simp add: p Cons.IH)
  qed
qed

lemma keys_Map_set_absent: "k \<notin> fst ` set m \<Longrightarrow> map fst (Map_set m k v) = map fst m @ [k]"
  by (induction m) auto

lemma keys_Map_set:
  "map fst (Map_set m k v) = (if k \<in> fst ` set m then map fst m else map fst m @ [k])"
  by (simp add: keys_Map_set_present keys_Map_set_absent)

lemma distinct_Map_set: "distinct (map fst m) \<Longrightarrow> distinct (map fst (Map_set m k v))"
  by (simp add: keys_Map_set)

lemma Map_get_Some_iff:
  "distinct (map fst m) \<Longrightarrow> Map_get m k = Some v \<longleftrightarrow> (k, v) \<in> set m"
proof (induction m)
  case Nil
  then show ?case by simp
next
  case (Cons p m)
  obtain k' v' where p: "p = (k', v')" by (cases p)
  from Cons.prems have d: "distinct (map fst m)" and n: "k' \<notin> fst ` set m"
    by (simp_all add: p)
  show ?case
  proof (cases "k' = k")
    case True
    with n have "(k, v) \<notin> set m" by force
    with True show ?thesis by (auto simp: p)
  next
    case False
    then show ?thesis by (simp add: p Cons.IH [OF d])
  qed
qed

lemma loop_body_byCat:
  "s_byCat (loop_body s r) =
     (case row_category_id r of
        None \<Rightarrow> s_byCat s
      | Some c \<Rightarrow> Map_set (s_byCat s) c
          ((case Map_get (s_byCat s) c of None \<Rightarrow> 0 | Some v \<Rightarrow> v) + row_amount r))"
  by (simp add: loop_body_def Let_def split: option.split)

lemma run_loop_byCat_cong:
  "s_byCat s = s_byCat s' \<Longrightarrow> s_byCat (run_loop s rows) = s_byCat (run_loop s' rows)"
proof (induction rows arbitrary: s s')
  case Nil
  then show ?case by (simp add: run_loop_Nil)
next
  case (Cons r rows)
  have "s_byCat (loop_body s r) = s_byCat (loop_body s' r)"
    using Cons.prems by (simp add: loop_body_byCat split: option.split)
  then have "s_byCat (run_loop (loop_body s r) rows) = s_byCat (run_loop (loop_body s' r) rows)"
    by (rule Cons.IH)
  then show ?case by (simp only: run_loop_Cons)
qed

lemma run_loop_distinct:
  "distinct (map fst (s_byCat s)) \<Longrightarrow> distinct (map fst (s_byCat (run_loop s rows)))"
proof (induction rows arbitrary: s)
  case Nil
  then show ?case by (simp add: run_loop_Nil)
next
  case (Cons r rows)
  have "distinct (map fst (s_byCat (loop_body s r)))"
    using Cons.prems by (simp add: loop_body_byCat distinct_Map_set split: option.split)
  then have "distinct (map fst (s_byCat (run_loop (loop_body s r) rows)))"
    by (rule Cons.IH)
  then show ?case by (simp only: run_loop_Cons)
qed

lemma run_loop_Map_get:
  "Map_get (s_byCat (run_loop s rows)) c =
     (if \<exists>r \<in> set rows. row_category_id r = Some c
      then Some (foldl (+) (case Map_get (s_byCat s) c of None \<Rightarrow> 0 | Some v \<Rightarrow> v)
                   (map row_amount (filter (\<lambda>r. row_category_id r = Some c) rows)))
      else Map_get (s_byCat s) c)"
proof (induction rows arbitrary: s)
  case Nil
  then show ?case by (simp add: run_loop_Nil)
next
  case (Cons r rows)
  note IH = Cons.IH [of "loop_body s r"]
  show ?case
  proof (cases "row_category_id r = Some c")
    case True
    then have "Map_get (s_byCat (loop_body s r)) c =
        Some ((case Map_get (s_byCat s) c of None \<Rightarrow> 0 | Some v \<Rightarrow> v) + row_amount r)"
      by (simp add: loop_body_byCat Map_get_set)
    with True show ?thesis
      by (simp add: run_loop_Cons IH)
  next
    case False
    then have "Map_get (s_byCat (loop_body s r)) c = Map_get (s_byCat s) c"
      by (simp add: loop_body_byCat Map_get_set split: option.split)
    with False show ?thesis
      by (simp add: run_loop_Cons IH)
  qed
qed

section \<open>The sort of the category totals\<close>

lemma set_sort_insert: "set (sort_insert a bs) = insert a (set bs)"
  by (induction bs) auto

lemma set_js_sort: "set (js_sort xs) = set xs"
  by (induction xs) (simp_all add: js_sort_def set_sort_insert)

lemma distinct_sort_insert:
  "distinct (map f (sort_insert a bs)) = distinct (map f (a # bs))"
  by (induction bs) (auto simp: set_sort_insert)

lemma js_sort_Cons: "js_sort (x # xs) = sort_insert x (js_sort xs)"
  by (simp add: js_sort_def)

lemma distinct_js_sort: "distinct (map f (js_sort xs)) = distinct (map f xs)"
proof (induction xs)
  case Nil
  then show ?case by (simp add: js_sort_def)
next
  case (Cons x xs)
  then show ?case
    by (simp add: js_sort_Cons distinct_sort_insert set_js_sort)
qed





section \<open>The sequence byCategory\<close>

lemma summarize_byCategory:
  "byCategory (summarize m p rows) =
     js_sort (map (\<lambda>(c, t). \<lparr>category_id = c, total = t\<rparr>) (s_byCat (run_loop loop_init rows)))"
  by (simp add: summarize_def Let_def)

lemma entry_in_byCategory:
  "\<lparr>category_id = c, total = t\<rparr> \<in> set (byCategory (summarize m p rows))
     \<longleftrightarrow> Map_get (s_byCat (run_loop loop_init rows)) c = Some t"
proof -
  have d: "distinct (map fst (s_byCat (run_loop loop_init rows)))"
    by (rule run_loop_distinct) (simp add: loop_init_def)
  have "\<lparr>category_id = c, total = t\<rparr> \<in> set (byCategory (summarize m p rows))
      \<longleftrightarrow> (c, t) \<in> set (s_byCat (run_loop loop_init rows))"
    by (auto simp: summarize_byCategory set_js_sort)
  then show ?thesis by (simp add: Map_get_Some_iff [OF d])
qed

lemma byCategory_distinct:
  "distinct (map category_id (byCategory (summarize m p rows)))"
proof -
  have d: "distinct (map fst (s_byCat (run_loop loop_init rows)))"
    by (rule run_loop_distinct) (simp add: loop_init_def)
  have "map category_id (map (\<lambda>(c, t). \<lparr>category_id = c, total = t\<rparr>) xs) = map fst xs"
    for xs :: "(int \<times> 'a) list"
    by (induction xs) auto
  with d show ?thesis
    by (simp add: summarize_byCategory distinct_js_sort del: map_map)
qed

lemma run_loop_drop_null:
  assumes "row_category_id r = None"
  shows "s_byCat (run_loop s (xs @ r # ys)) = s_byCat (run_loop s (xs @ ys))"
proof -
  have "s_byCat (loop_body (run_loop s xs) r) = s_byCat (run_loop s xs)"
    using assms by (simp add: loop_body_byCat)
  then have "s_byCat (run_loop (loop_body (run_loop s xs) r) ys) = s_byCat (run_loop (run_loop s xs) ys)"
    by (rule run_loop_byCat_cong)
  then show ?thesis by (simp add: run_loop_append run_loop_Cons)
qed



text \<open>
  Claim C9. The total paired with a category in \<open>byCategory\<close> is the sum of the
  amounts of all the rows that carry the category, of either kind, added with
  the same sign in the order of the rows: an entry \<open>(c, t)\<close> is in \<open>byCategory\<close>
  exactly when some row carries \<open>c\<close> and \<open>t\<close> is that sum, and no category has
  two entries.
\<close>

theorem byCategory_totals:
  "(\<lparr>category_id = c, total = t\<rparr> \<in> set (byCategory (summarize m p rows))
      \<longleftrightarrow> c \<in> categories rows \<and> t = category_total rows c)
   \<and> distinct (map category_id (byCategory (summarize m p rows)))"
proof -
  have "Map_get (s_byCat (run_loop loop_init rows)) c = Some t
      \<longleftrightarrow> c \<in> categories rows \<and> t = category_total rows c"
    by (auto simp: run_loop_Map_get loop_init_def categories_def category_total_def sum_left_def)
  then show ?thesis
    by (simp add: entry_in_byCategory byCategory_distinct)
qed

theorem byCategory_totals_witness:
  "\<lparr>category_id = 1, total = 30\<rparr> \<in> set (byCategory (summarize ''2024-02'' feb_2024 four_rows))
   \<and> category_total four_rows 1 = 30"
proof -
  have c: "1 \<in> categories four_rows"
    by (simp add: categories_def four_rows_def)
  have t: "category_total four_rows 1 = 30"
    by (simp add: category_total_def sum_left_def four_rows_def)
  from byCategory_totals [of 1 30 "''2024-02''" feb_2024 four_rows] c t
  show ?thesis by simp
qed

text \<open>
  Claim C5. A row whose category is null leaves \<open>byCategory\<close> as it is without
  the row, wherever the row stands among the rows; its amount is added to \<open>inc\<close>
  when its kind is income and to \<open>exp\<close> otherwise.
\<close>

theorem null_category_row:
  assumes "row_category_id r = None"
  shows "byCategory (summarize m p (xs @ r # ys)) = byCategory (summarize m p (xs @ ys))
    \<and> inc (summarize m p (xs @ [r])) =
        (if row_type r = ''income'' then inc (summarize m p xs) + row_amount r
         else inc (summarize m p xs))
    \<and> exp (summarize m p (xs @ [r])) =
        (if row_type r = ''income'' then exp (summarize m p xs)
         else exp (summarize m p xs) + row_amount r)"
proof -
  have a: "byCategory (summarize m p (xs @ r # ys)) = byCategory (summarize m p (xs @ ys))"
    by (simp add: summarize_byCategory run_loop_drop_null [OF assms])
  have c: "inc (summarize m p (xs @ [r])) =
        (if row_type r = ''income'' then inc (summarize m p xs) + row_amount r
         else inc (summarize m p xs))"
    by (simp add: summarize_inc run_loop_append run_loop_Cons run_loop_Nil loop_body_inc)
  have d: "exp (summarize m p (xs @ [r])) =
        (if row_type r = ''income'' then exp (summarize m p xs)
         else exp (summarize m p xs) + row_amount r)"
    by (simp add: summarize_exp run_loop_append run_loop_Cons run_loop_Nil loop_body_exp)
  from a c d show ?thesis by simp
qed

theorem null_category_row_witness:
  "byCategory (summarize ''2024-02'' feb_2024
      (four_rows @ \<lparr>row_type = ''income'', row_amount = 7, row_category_id = None\<rparr> # four_rows))
     = byCategory (summarize ''2024-02'' feb_2024 (four_rows @ four_rows))
   \<and> inc (summarize ''2024-02'' feb_2024
        (four_rows @ [\<lparr>row_type = ''income'', row_amount = 7, row_category_id = None\<rparr>]))
     = inc (summarize ''2024-02'' feb_2024 four_rows) + 7"
  using null_category_row
    [of "\<lparr>row_type = ''income'', row_amount = 7, row_category_id = None\<rparr>"
        "''2024-02''" feb_2024 four_rows four_rows]
  by simp




lemma nan_total_sequence:
  "byCategory (summarize ''2024-02'' feb_2024 nan_rows) =
     [\<lparr>category_id = 1, total = Num 10\<rparr>, \<lparr>category_id = 2, total = NaN\<rparr>,
      \<lparr>category_id = 3, total = Num 50\<rparr>]"
  by (simp add: summarize_def run_loop_def loop_body_def loop_init_def Let_def nan_rows_def
      js_sort_def compareFn_def zero_js_number_def)

section \<open>The handlers and the period\<close>

lemma summary_month_token_fails:
  "q_month q = Some v \<Longrightarrow> month_fails_pattern v \<Longrightarrow> summary_month_token e q = current_month e"
  by (cases v) (simp_all add: summary_month_token_def month_fails_pattern_def)

lemma summary_month_token_absent:
  "summary_month_token e (q\<lparr>q_month := None\<rparr>) = current_month e"
  by (simp add: summary_month_token_def)

lemma optional_string_fails:
  "month_fails_pattern v \<Longrightarrow> optional_string YM_test (Some v) = None"
  by (cases v) (simp_all add: optional_string_def month_fails_pattern_def)

lemma listQuerySchema_month_fails:
  assumes "q_month q = Some v" and "month_fails_pattern v"
  shows "\<exists>errs. listQuerySchema q = Inl errs \<and> ''month'' \<in> set errs"
proof -
  have "optional_string YM_test (q_month q) = None"
    using assms by (simp add: optional_string_fails)
  then show ?thesis
    by (simp add: listQuerySchema_def split: option.split)
qed

text \<open>
  Claim C6. When the request sent to the transaction store fails with a message,
  it is the only request of the handler, and the response is the status 400
  with that message as its detail: no totals are returned.
\<close>

theorem fetch_failure:
  assumes "summary_month e store req = (calls, resp)"
    and "q \<in> set calls" and "error (store q) = Some msg"
  shows "calls = [q] \<and> resp = Response 400 (Detail msg)"
  using assms
  by (auto simp: summary_month_def not_found_def Let_def
      split: option.splits sum.splits if_splits)

theorem fetch_failure_witness:
  "summary_month utc_env failing_store feb_request
     = ([summary_request 7 feb_2024], Response 400 (Detail ''connection refused''))
   \<and> error (failing_store (summary_request 7 feb_2024)) = Some ''connection refused''"
proof -
  have a: "summary_month utc_env failing_store feb_request
     = ([summary_request 7 feb_2024], Response 400 (Detail ''connection refused''))"
    by code_simp
  have b: "summary_request 7 feb_2024 \<in> set [summary_request 7 feb_2024]"
    by simp
  have c: "error (failing_store (summary_request 7 feb_2024)) = Some ''connection refused''"
    by (simp add: failing_store_def)
  from fetch_failure [OF a b c] a c show ?thesis by simp
qed

text \<open>
  Claim C8. When the request sent to the store succeeds with no rows (an empty
  list, or no data), the response is the status 200 with \<open>inc = 0\<close>, \<open>exp = 0\<close>,
  \<open>net = 0\<close> and the empty \<open>byCategory\<close>, for the resolved period.
\<close>

theorem empty_fetch:
  fixes store :: "unit store_request \<Rightarrow> 'a::{group_add,ord} row list store_result"
  assumes "summary_month e store req = (calls, resp)"
    and "q \<in> set calls" and "error (store q) = None"
    and "data (store q) = None \<or> data (store q) = Some []"
  shows "\<exists>p. firstLastDayOfMonth (LocalTZA e) (summary_month_token e (req_query req)) = Inr p
    \<and> resp = Response 200 (Data
        \<lparr>month = summary_month_token e (req_query req),
         from_date = period_from p, to_date = period_to p,
         inc = 0, exp = 0, net = 0, byCategory = []\<rparr>)"
proof -
  have s: "summarize m p ([] :: 'a row list) =
      \<lparr>month = m, from_date = period_from p, to_date = period_to p,
       inc = 0, exp = 0, net = 0, byCategory = []\<rparr>" for m p
    by (simp add: summarize_def run_loop_Nil loop_init_def js_sort_def)
  show ?thesis
    using assms
    by (auto simp: summary_month_def not_found_def Let_def s
        split: option.splits sum.splits if_splits)
qed

theorem empty_fetch_witness:
  "summary_month utc_env empty_store feb_request
     = ([summary_request 7 feb_2024],
        Response 200 (Data \<lparr>month = ''2024-02'', from_date = ''2024-02-01'',
          to_date = ''2024-02-29'', inc = 0, exp = 0, net = 0, byCategory = []\<rparr>))
   \<and> (\<exists>p. firstLastDayOfMonth (LocalTZA utc_env)
              (summary_month_token utc_env (req_query feb_request)) = Inr p
          \<and> period_from p = ''2024-02-01'' \<and> period_to p = ''2024-02-29'')"
proof -
  have a: "summary_month utc_env empty_store feb_request
     = ([summary_request 7 feb_2024],
        Response 200 (Data \<lparr>month = ''2024-02'', from_date = ''2024-02-01'',
          to_date = ''2024-02-29'', inc = 0, exp = 0, net = 0, byCategory = []\<rparr>))"
    by code_simp
  have b: "summary_request 7 feb_2024 \<in> set [summary_request 7 feb_2024]"
    by simp
  have c: "error (empty_store (summary_request 7 feb_2024)) = None"
    and d: "data (empty_store (summary_request 7 feb_2024)) = None
      \<or> data (empty_store (summary_request 7 feb_2024)) = Some []"
    by (simp_all add: empty_store_def)
  from empty_fetch [OF a b c d]
  have "\<exists>p. firstLastDayOfMonth (LocalTZA utc_env)
              (summary_month_token utc_env (req_query feb_request)) = Inr p
          \<and> period_from p = ''2024-02-01'' \<and> period_to p = ''2024-02-29''"
    by auto
  with a show ?thesis by simp
qed

text \<open>
  Claim C10. The update and the delete of a goal send to the store a request
  filtered by the goal id alone, and the handlers do not read the user: two
  requests that differ only in the authenticated user give the same store
  request and the same response. The update and the delete of a transaction
  filter by the id and by the profile of the user, so that the delete of the
  same transaction id by two users with different profiles sends different
  requests.
\<close>

theorem goals_mutations_ignore_owner:
  "goals_patch updateSchema store (req\<lparr>req_user := u1\<rparr>)
     = goals_patch updateSchema store (req\<lparr>req_user := u2\<rparr>)
   \<and> goals_delete store (req\<lparr>req_user := u1\<rparr>) = goals_delete store (req\<lparr>req_user := u2\<rparr>)
   \<and> (updateSchema (req_body req) = Inr parsed \<longrightarrow>
        fst (goals_patch updateSchema store req)
          = [Update ''financial_goal'' parsed [Eq ''id'' (JNumber (req_id req))] ''*''])
   \<and> fst (goals_delete store req) = [Delete ''financial_goal'' [Eq ''id'' (JNumber (req_id req))]]
   \<and> (req_id req \<noteq> NaN \<and> getProfileIdByAuthId e (req_user req) = Some userId \<and> userId \<noteq> 0 \<longrightarrow>
        fst (transactions_delete e store req)
          = [Delete ''transaction''
               [Eq ''id'' (JNumber (req_id req)), Eq ''user_id'' (JNumber (Num userId))]]
        \<and> (txnSchema (req_body req) = Inr patch
              \<and> \<not> (truthy (p_occurred_at patch) \<and> \<not> YMD_test (the (p_occurred_at patch))) \<longrightarrow>
            fst (transactions_patch e txnSchema store2 req)
              = [Update ''transaction'' patch
                   [Eq ''id'' (JNumber (req_id req)), Eq ''user_id'' (JNumber (Num userId))]
                   ''id, amount, type, category_id, description, occurred_at'']))
   \<and> (req_id req \<noteq> NaN \<and> getProfileIdByAuthId e u1 = Some p1 \<and> p1 \<noteq> 0
        \<and> getProfileIdByAuthId e u2 = Some p2 \<and> p2 \<noteq> 0 \<and> p1 \<noteq> p2 \<longrightarrow>
        fst (transactions_delete e store (req\<lparr>req_user := u1\<rparr>))
          \<noteq> fst (transactions_delete e store (req\<lparr>req_user := u2\<rparr>)))"
proof -
  have goals: "goals_patch updateSchema store (req\<lparr>req_user := u1\<rparr>)
        = goals_patch updateSchema store (req\<lparr>req_user := u2\<rparr>)"
      "goals_delete store (req\<lparr>req_user := u1\<rparr>) = goals_delete store (req\<lparr>req_user := u2\<rparr>)"
    by (simp_all add: goals_patch_def goals_delete_def)
  have filters: "updateSchema (req_body req) = Inr parsed \<longrightarrow>
        fst (goals_patch updateSchema store req)
          = [Update ''financial_goal'' parsed [Eq ''id'' (JNumber (req_id req))] ''*'']"
      "fst (goals_delete store req) = [Delete ''financial_goal'' [Eq ''id'' (JNumber (req_id req))]]"
    by (simp_all add: goals_patch_def goals_delete_def Let_def split: option.split)
  have txn: "req_id req \<noteq> NaN \<and> getProfileIdByAuthId e (req_user req) = Some userId
        \<and> userId \<noteq> 0 \<longrightarrow>
        fst (transactions_delete e store req)
          = [Delete ''transaction''
               [Eq ''id'' (JNumber (req_id req)), Eq ''user_id'' (JNumber (Num userId))]]
        \<and> (txnSchema (req_body req) = Inr patch
              \<and> \<not> (truthy (p_occurred_at patch) \<and> \<not> YMD_test (the (p_occurred_at patch))) \<longrightarrow>
            fst (transactions_patch e txnSchema store2 req)
              = [Update ''transaction'' patch
                   [Eq ''id'' (JNumber (req_id req)), Eq ''user_id'' (JNumber (Num userId))]
                   ''id, amount, type, category_id, description, occurred_at''])"
    by (auto simp: transactions_delete_def transactions_patch_def Let_def split: option.splits)
  have owner: "req_id req \<noteq> NaN \<and> getProfileIdByAuthId e u1 = Some p1 \<and> p1 \<noteq> 0
        \<and> getProfileIdByAuthId e u2 = Some p2 \<and> p2 \<noteq> 0 \<and> p1 \<noteq> p2 \<longrightarrow>
        fst (transactions_delete e store (req\<lparr>req_user := u1\<rparr>))
          \<noteq> fst (transactions_delete e store (req\<lparr>req_user := u2\<rparr>))"
    by (auto simp: transactions_delete_def Let_def split: option.splits)
  from goals filters txn owner show ?thesis by blast
qed

theorem goals_mutations_ignore_owner_witness:
  "goals_patch goal_schema goal_store (id5_request\<lparr>req_user := ''auth-1''\<rparr>)
     = goals_patch goal_schema goal_store (id5_request\<lparr>req_user := ''auth-2''\<rparr>)
   \<and> fst (goals_patch goal_schema goal_store id5_request)
     = [Update ''financial_goal'' ''x'' [Eq ''id'' (JNumber (Num 5))] ''*'']
   \<and> fst (goals_delete goal_store id5_request)
     = [Delete ''financial_goal'' [Eq ''id'' (JNumber (Num 5))]]
   \<and> fst (transactions_delete utc_env goal_store id5_request)
     = [Delete ''transaction'' [Eq ''id'' (JNumber (Num 5)), Eq ''user_id'' (JNumber (Num 7))]]
   \<and> fst (transactions_patch utc_env txn_schema txn_store id5_request)
     = [Update ''transaction''
          \<lparr>p_amount = Some 12, p_type = None, p_category_id = None,
           p_description = Some ''x'', p_occurred_at = Some ''2024-02-10''\<rparr>
          [Eq ''id'' (JNumber (Num 5)), Eq ''user_id'' (JNumber (Num 7))]
          ''id, amount, type, category_id, description, occurred_at'']
   \<and> fst (transactions_delete utc_env goal_store (id5_request\<lparr>req_user := ''auth-1''\<rparr>))
     \<noteq> fst (transactions_delete utc_env goal_store (id5_request\<lparr>req_user := ''auth-2''\<rparr>))"
proof -
  have o: "getProfileIdByAuthId utc_env ''auth-1'' = Some 7 \<and> (7::int) \<noteq> 0
      \<and> getProfileIdByAuthId utc_env ''auth-2'' = Some 8 \<and> (8::int) \<noteq> 0 \<and> (7::int) \<noteq> 8"
    by (simp add: utc_env_def)
  have a: "goal_schema (req_body id5_request) = Inr ''x''"
    by (simp add: goal_schema_def id5_request_def)
  have b: "req_id id5_request \<noteq> NaN \<and> getProfileIdByAuthId utc_env (req_user id5_request) = Some 7
      \<and> (7::int) \<noteq> 0"
    by (simp add: id5_request_def utc_env_def)
  have c: "txn_schema (req_body id5_request) =
      Inr \<lparr>p_amount = Some 12, p_type = None, p_category_id = None,
           p_description = Some ''x'', p_occurred_at = Some ''2024-02-10''\<rparr>"
    by (simp add: txn_schema_def id5_request_def)
  have d: "YMD_test ''2024-02-10''"
    by (simp add: YMD_test_def is_digit_def)
  have i: "req_id id5_request = Num 5"
    by (simp add: id5_request_def)
  from goals_mutations_ignore_owner
    [where updateSchema = goal_schema and store = goal_store and req = id5_request
       and ?u1.0 = "''auth-1''" and ?u2.0 = "''auth-2''" and parsed = "''x''" and e = utc_env
       and userId = 7 and txnSchema = txn_schema and ?store2.0 = txn_store
       and ?p1.0 = 7 and ?p2.0 = 8
       and patch = "\<lparr>p_amount = Some 12, p_type = None, p_category_id = None,
           p_description = Some ''x'', p_occurred_at = Some ''2024-02-10''\<rparr>"]
    a b c d i o
  show ?thesis by simp
qed

section \<open>The calendar of the time values\<close>

lemma div_succ:
  fixes x n :: int
  assumes "1 < n"
  shows "(x + 1) div n = x div n + (if (x + 1) mod n = 0 then 1 else 0)"
proof -
  define q where "q = x div n"
  define r where "r = x mod n"
  have x: "x = q * n + r" by (simp add: q_def r_def)
  have r: "0 \<le> r" "r < n" using assms by (simp_all add: r_def)
  have n0: "n \<noteq> 0" using assms by simp
  show ?thesis
  proof (cases "r = n - 1")
    case True
    then have "x + 1 = 0 + (q + 1) * n" by (simp add: x algebra_simps)
    then have "(x + 1) div n = q + 1" "(x + 1) mod n = 0"
      using assms by simp_all
    then show ?thesis by (simp add: q_def)
  next
    case False
    with r have r1: "0 \<le> r + 1" "r + 1 < n" by simp_all
    have e: "x + 1 = (r + 1) + q * n" by (simp add: x)
    have "(x + 1) div n = q + (r + 1) div n"
      unfolding e using n0 by (rule div_mult_self1)
    moreover have "(x + 1) mod n = (r + 1) mod n"
      unfolding e by (rule mod_mult_self1)
    ultimately show ?thesis using r r1 by (simp add: q_def)
  qed
qed

lemma mod_shift4: "(y - 1969 + 1) mod 4 = y mod 4" for y :: int
proof -
  have "y - 1969 + 1 = y + (- 492) * 4" by simp
  then show ?thesis by (simp only: mod_mult_self1)
qed

lemma mod_shift100: "(y - 1901 + 1) mod 100 = y mod 100" for y :: int
proof -
  have "y - 1901 + 1 = y + (- 19) * 100" by simp
  then show ?thesis by (simp only: mod_mult_self1)
qed

lemma mod_shift400: "(y - 1601 + 1) mod 400 = y mod 400" for y :: int
proof -
  have "y - 1601 + 1 = y + (- 4) * 400" by simp
  then show ?thesis by (simp only: mod_mult_self1)
qed

lemma mod_100_4: "y mod 100 = 0 \<Longrightarrow> y mod 4 = 0" for y :: int
proof -
  assume "y mod 100 = 0"
  then have "(100::int) dvd y" by (simp add: dvd_eq_mod_eq_0)
  moreover have "(4::int) dvd 100" by simp
  ultimately have "(4::int) dvd y" by (rule dvd_trans [rotated])
  then show ?thesis by (simp add: dvd_eq_mod_eq_0)
qed

lemma mod_400_100: "y mod 400 = 0 \<Longrightarrow> y mod 100 = 0" for y :: int
proof -
  assume "y mod 400 = 0"
  then have "(400::int) dvd y" by (simp add: dvd_eq_mod_eq_0)
  moreover have "(100::int) dvd 400" by simp
  ultimately have "(100::int) dvd y" by (rule dvd_trans [rotated])
  then show ?thesis by (simp add: dvd_eq_mod_eq_0)
qed

lemma DayFromYear_Suc: "DayFromYear (y + 1) = DayFromYear y + DaysInYear y"
proof -
  have a: "(y + 1 - 1969) div 4 = (y - 1969) div 4 + (if y mod 4 = 0 then 1 else 0)"
    using div_succ [of 4 "y - 1969"] by (simp only: mod_shift4) (simp add: algebra_simps)
  have b: "(y + 1 - 1901) div 100 = (y - 1901) div 100 + (if y mod 100 = 0 then 1 else 0)"
    using div_succ [of 100 "y - 1901"] by (simp only: mod_shift100) (simp add: algebra_simps)
  have c: "(y + 1 - 1601) div 400 = (y - 1601) div 400 + (if y mod 400 = 0 then 1 else 0)"
    using div_succ [of 400 "y - 1601"] by (simp only: mod_shift400) (simp add: algebra_simps)
  show ?thesis
    unfolding DayFromYear_def DaysInYear_def a b c
    using mod_100_4 [of y] mod_400_100 [of y] by auto
qed

lemma DaysInYear_bounds: "365 \<le> DaysInYear y" "DaysInYear y \<le> 366"
  by (simp_all add: DaysInYear_def)

lemma DayFromYear_less_Suc: "DayFromYear y < DayFromYear (y + 1)"
  using DaysInYear_bounds(1) [of y] by (simp add: DayFromYear_Suc)

lemma DayFromYear_mono: "y \<le> y' \<Longrightarrow> DayFromYear y \<le> DayFromYear y'"
proof (induction y' rule: int_ge_induct)
  case base
  show ?case by simp
next
  case (step i)
  then show ?case using DayFromYear_less_Suc [of i] by simp
qed

lemma DayFromYear_1970: "DayFromYear 1970 = 0"
  by (simp add: DayFromYear_def)

lemma DayFromYear_upper: "0 \<le> k \<Longrightarrow> DayFromYear (1970 + k) \<le> 366 * k"
proof (induction k rule: int_ge_induct)
  case base
  show ?case by (simp add: DayFromYear_1970)
next
  case (step i)
  have "DayFromYear (1970 + (i + 1)) = DayFromYear (1970 + i) + DaysInYear (1970 + i)"
    using DayFromYear_Suc [of "1970 + i"] by (simp add: add.assoc)
  then show ?case using step.IH DaysInYear_bounds(2) [of "1970 + i"] by simp
qed

lemma DayFromYear_lower: "k \<le> 0 \<Longrightarrow> DayFromYear (1970 + k) \<le> 365 * k"
proof (induction k rule: int_le_induct)
  case base
  show ?case by (simp add: DayFromYear_1970)
next
  case (step i)
  have "DayFromYear (1970 + i) = DayFromYear (1970 + (i - 1)) + DaysInYear (1970 + (i - 1))"
    using DayFromYear_Suc [of "1970 + (i - 1)"] by (simp add: algebra_simps)
  then show ?case using step.IH DaysInYear_bounds(1) [of "1970 + (i - 1)"] by simp
qed

lemma year_estimate: "DayFromYear (1970 + (if 0 \<le> d then d div 366 else d div 365)) \<le> d"
proof (cases "0 \<le> d")
  case True
  then have "0 \<le> d div 366" by simp
  then have "DayFromYear (1970 + d div 366) \<le> 366 * (d div 366)" by (rule DayFromYear_upper)
  also have "\<dots> \<le> d" using True by simp
  finally show ?thesis using True by simp
next
  case False
  then have "d div 365 \<le> 0" using div_neg_pos_less0 [of d 365] by simp
  then have "DayFromYear (1970 + d div 365) \<le> 365 * (d div 365)" by (rule DayFromYear_lower)
  also have "\<dots> \<le> d" by simp
  finally show ?thesis using False by simp
qed

lemma year_search_spec:
  "DayFromYear y \<le> d \<Longrightarrow>
     DayFromYear (year_search y d) \<le> d \<and> d < DayFromYear (year_search y d + 1)"
proof (induction y d rule: year_search.induct)
  case (1 y d)
  show ?case
  proof (cases "DayFromYear (y + 1) \<le> d")
    case True
    then show ?thesis using "1.IH" by (subst (1 2) year_search.simps) simp
  next
    case False
    then show ?thesis using "1.prems" by (subst (1 2) year_search.simps) simp
  qed
qed

lemma year_unique:
  assumes "DayFromYear a \<le> d" "d < DayFromYear (a + 1)"
    and "DayFromYear b \<le> d" "d < DayFromYear (b + 1)"
  shows "a = b"
proof (rule ccontr)
  assume "a \<noteq> b"
  then consider "a + 1 \<le> b" | "b + 1 \<le> a" by linarith
  then show False
  proof cases
    case 1
    then have "DayFromYear (a + 1) \<le> DayFromYear b" by (rule DayFromYear_mono)
    with assms show False by simp
  next
    case 2
    then have "DayFromYear (b + 1) \<le> DayFromYear a" by (rule DayFromYear_mono)
    with assms show False by simp
  qed
qed

text \<open>\<open>YearFromTime\<close> meets its specification: it is the year of the day of \<open>t\<close>.\<close>

lemma YearFromTime_spec:
  "DayFromYear (YearFromTime t) \<le> Day t \<and> Day t < DayFromYear (YearFromTime t + 1)"
  unfolding YearFromTime_def Let_def by (rule year_search_spec) (rule year_estimate)

lemma YearFromTime_eq:
  assumes "DayFromYear y \<le> Day t" and "Day t < DayFromYear y + DaysInYear y"
  shows "YearFromTime t = y"
proof -
  have "Day t < DayFromYear (y + 1)" using assms(2) by (simp add: DayFromYear_Suc)
  with YearFromTime_spec [of t] assms(1) show ?thesis
    by (auto intro: year_unique)
qed

lemma leap_year_DaysInYear: "DaysInYear y = (if leap_year y then 366 else 365)"
proof (cases "y mod 100 = 0")
  case True
  then have "y mod 4 = 0" by (rule mod_100_4)
  with True show ?thesis by (simp add: DaysInYear_def leap_year_def)
next
  case False
  have "y mod 400 \<noteq> 0"
  proof
    assume "y mod 400 = 0"
    then have "y mod 100 = 0" by (rule mod_400_100)
    with False show False by (rule notE)
  qed
  with False show ?thesis by (simp add: DaysInYear_def leap_year_def)
qed

text \<open>The tables of the months, by cases on the month.\<close>

lemma month_cases:
  assumes "1 \<le> m" "m \<le> 12"
  obtains "m = 1" | "m = 2" | "m = 3" | "m = 4" | "m = 5" | "m = 6"
    | "m = 7" | "m = 8" | "m = 9" | "m = 10" | "m = 11" | "m = (12::int)"
proof -
  have "m \<in> set [1..12]" using assms by simp
  also have "[1..12::int] = [1, 2, 3, 4, 5, 6, 7, 8, 9, 10, 11, 12]" by code_simp
  finally show thesis using that by auto
qed

lemma leap_day_bounds: "0 \<le> leap_day y" "leap_day y \<le> 1"
  by (simp_all add: leap_day_def)

lemma DaysInYear_leap_day: "DaysInYear y = 365 + leap_day y"
  by (simp add: leap_year_DaysInYear leap_day_def)

lemma month_start_leap_day:
  "month_start y mn =
     (if mn = 0 then 0 else if mn = 1 then 31 else if mn = 2 then 59 + leap_day y
      else if mn = 3 then 90 + leap_day y else if mn = 4 then 120 + leap_day y
      else if mn = 5 then 151 + leap_day y else if mn = 6 then 181 + leap_day y
      else if mn = 7 then 212 + leap_day y else if mn = 8 then 243 + leap_day y
      else if mn = 9 then 273 + leap_day y else if mn = 10 then 304 + leap_day y
      else 334 + leap_day y)"
  by (simp add: month_start_def Let_def leap_year_DaysInYear leap_day_def)

lemma days_in_month_leap_day:
  "days_in_month y m =
     (if m = 2 then 28 + leap_day y else if m = 4 \<or> m = 6 \<or> m = 9 \<or> m = 11 then 30 else 31)"
  by (simp add: days_in_month_def leap_day_def)

lemma month_start_next:
  assumes "1 \<le> m" "m \<le> 12"
  shows "month_start y (m - 1) + days_in_month y m
    = (if m = 12 then DaysInYear y else month_start y m)"
  using assms
  by (cases m rule: month_cases)
    (simp_all add: month_start_leap_day days_in_month_leap_day DaysInYear_leap_day)



lemma MakeDay_first:
  assumes "1 \<le> m" "m \<le> 12"
  shows "MakeDay y (m - 1) 1 = DayFromYear y + month_start y (m - 1)"
proof -
  have "(m - 1) div 12 = 0" "(m - 1) mod 12 = m - 1" using assms by simp_all
  then show ?thesis by (simp add: MakeDay_def Let_def)
qed

lemma MakeDay_last:
  assumes "1 \<le> m" "m \<le> 12"
  shows "MakeDay y m 0 = DayFromYear y + month_start y (m - 1) + days_in_month y m - 1"
proof (cases "m = 12")
  case True
  have "month_start (y + 1) 0 = 0" by (simp add: month_start_def)
  then have "MakeDay y 12 0 = DayFromYear (y + 1) - 1"
    by (simp add: MakeDay_def Let_def)
  then show ?thesis
    using month_start_next [OF assms, of y] True by (simp add: DayFromYear_Suc)
next
  case False
  with assms have "m div 12 = 0" "m mod 12 = m" by simp_all
  then have "MakeDay y m 0 = DayFromYear y + month_start y m - 1"
    by (simp add: MakeDay_def Let_def)
  then show ?thesis
    using month_start_next [OF assms, of y] False by simp
qed


lemma days_in_month_bounds:
  assumes "1 \<le> m" "m \<le> 12"
  shows "28 \<le> days_in_month y m" "days_in_month y m \<le> 31"
  by (simp_all add: days_in_month_def)

text \<open>The fields of a time value that falls on day \<open>dd\<close> of month \<open>m\<close> of year \<open>y\<close>.\<close>

lemma date_fields:
  assumes m: "1 \<le> m" "m \<le> 12" and dd: "1 \<le> dd" "dd \<le> days_in_month y m"
    and day: "Day t = DayFromYear y + month_start y (m - 1) + dd - 1"
  shows "YearFromTime t = y" and "MonthFromTime t = m - 1" and "DateFromTime t = dd"
proof -
  define l where "l = leap_day y"
  have l: "0 \<le> l" "l \<le> 1" by (simp_all add: l_def leap_day_bounds)
  note tables = month_start_leap_day days_in_month_leap_day DaysInYear_leap_day l_def [symmetric]
  have w: "0 \<le> month_start y (m - 1) + dd - 1 \<and>
      month_start y (m - 1) + dd - 1 < DaysInYear y"
    using m(1,2) dd l by (cases m rule: month_cases) (simp_all add: tables)
  show y: "YearFromTime t = y"
    by (rule YearFromTime_eq) (use w day in simp_all)
  have dwy: "DayWithinYear t = month_start y (m - 1) + dd - 1"
    by (simp add: DayWithinYear_def y day)
  have il: "InLeapYear t = l"
    by (simp add: InLeapYear_def y leap_year_DaysInYear l_def leap_day_def)
  show mo: "MonthFromTime t = m - 1"
    using m(1,2) dd l
    by (cases m rule: month_cases) (simp_all add: MonthFromTime_def Let_def dwy il tables)
  show "DateFromTime t = dd"
    using m(1,2) dd l
    by (cases m rule: month_cases) (simp_all add: DateFromTime_def Let_def mo dwy il tables)
qed


lemma Day_local_midnight:
  assumes "- msPerDay < z" "z \<le> 0"
  shows "Day (d * msPerDay - z) = d"
proof -
  have "(- z + d * msPerDay) div msPerDay = d + (- z) div msPerDay"
    by (rule div_mult_self1) (simp add: msPerDay_def)
  moreover have "(- z) div msPerDay = 0"
    using assms by (simp add: div_pos_pos_trivial)
  ultimately show ?thesis by (simp add: Day_def algebra_simps)
qed

lemma length_digits: "0 < k \<Longrightarrow> n < 10 ^ k \<Longrightarrow> length (digits n) \<le> k"
proof (induction k arbitrary: n)
  case 0
  then show ?case by simp
next
  case (Suc k)
  show ?case
  proof (cases "n < 10")
    case True
    then show ?thesis by (subst digits.simps) simp
  next
    case False
    with Suc.prems have k: "0 < k" by (cases k) simp_all
    from Suc.prems have "n div 10 < 10 ^ k"
      by (simp add: less_mult_imp_div_less mult.commute)
    with k have "length (digits (n div 10)) \<le> k" by (rule Suc.IH)
    with False show ?thesis by (subst digits.simps) simp
  qed
qed

lemma length_pad_int:
  assumes "0 < k" "0 \<le> v" "v < 10 ^ k"
  shows "length (pad_int k v) = k"
proof -
  have "nat v < 10 ^ k" using assms(2,3) by (simp add: nat_less_iff)
  with assms(1) have "length (digits (nat v)) \<le> k" by (rule length_digits)
  then show ?thesis by (simp add: pad_int_def padStart_def)
qed

lemma iso_year_pad: "0 \<le> y \<Longrightarrow> y \<le> 9999 \<Longrightarrow> iso_year y = pad_int 4 y"
  by (simp add: iso_year_def pad_int_def)

lemma fmt_date:
  assumes "YearFromTime tv = y" "MonthFromTime tv = m - 1" "DateFromTime tv = dd"
    and "0 \<le> y" "y \<le> 9999" "1 \<le> m" "m \<le> 12" "1 \<le> dd" "dd \<le> 31"
  shows "fmt (Some tv) = Inr (ymd_string y m dd)"
proof -
  have a: "length (pad_int 4 y) = 4" using assms by (simp add: length_pad_int)
  have b: "length (pad_int 2 m) = 2" using assms by (simp add: length_pad_int)
  have c: "length (pad_int 2 dd) = 2" using assms by (simp add: length_pad_int)
  show ?thesis
    unfolding fmt_def toISOString_def ymd_string_def
    using assms(4,5) by (simp add: assms(1,2,3) iso_year_pad a b c)
qed

lemma split_go_no_sep: "sep \<notin> set a \<Longrightarrow> split_go sep cur a = [rev cur @ a]"
  by (induction a arbitrary: cur) auto

lemma split_go_sep:
  "sep \<notin> set a \<Longrightarrow> split_go sep cur (a @ sep # b) = (rev cur @ a) # split_go sep [] b"
  by (induction a arbitrary: cur) auto

lemma dash_not_digit: "list_all is_digit a \<Longrightarrow> CHR ''-'' \<notin> set a"
  by (auto simp: list_all_iff is_digit_def)

lemma YM_test_split:
  assumes "YM_test s"
  shows "split CHR ''-'' s = [take 4 s, drop 5 s]"
proof -
  from assms have len: "length s = 7" and a: "list_all is_digit (take 4 s)"
    and d: "s ! 4 = CHR ''-''" and b: "list_all is_digit (drop 5 s)"
    by (simp_all add: YM_test_def)
  have "s = take 4 s @ s ! 4 # drop (Suc 4) s"
    by (rule id_take_nth_drop) (simp add: len)
  then have s: "s = take 4 s @ CHR ''-'' # drop 5 s" by (simp add: d)
  have "split_go CHR ''-'' [] (take 4 s @ CHR ''-'' # drop 5 s)
      = (rev [] @ take 4 s) # split_go CHR ''-'' [] (drop 5 s)"
    by (rule split_go_sep) (rule dash_not_digit [OF a])
  also have "split_go CHR ''-'' [] (drop 5 s) = [rev [] @ drop 5 s]"
    by (rule split_go_no_sep) (rule dash_not_digit [OF b])
  finally show ?thesis using s by (simp add: split_def)
qed

lemma digit_value_bounds: "is_digit c \<Longrightarrow> 0 \<le> digit_value c \<and> digit_value c \<le> 9"
  by (auto simp: is_digit_def digit_value_def)

lemma digits_fold_bound:
  "list_all is_digit a \<Longrightarrow> 0 \<le> n \<Longrightarrow>
     0 \<le> foldl (\<lambda>n c. 10 * n + digit_value c) n a
     \<and> foldl (\<lambda>n c. 10 * n + digit_value c) n a < (n + 1) * 10 ^ length a"
proof (induction a arbitrary: n)
  case Nil
  then show ?case by simp
next
  case (Cons c a)
  from Cons.prems have c: "0 \<le> digit_value c" "digit_value c \<le> 9" and a: "list_all is_digit a"
    using digit_value_bounds [of c] by simp_all
  have n': "0 \<le> 10 * n + digit_value c" using Cons.prems(2) c by simp
  note IH = Cons.IH [OF a n']
  have "foldl (\<lambda>n c. 10 * n + digit_value c) (10 * n + digit_value c) a
      < (10 * n + digit_value c + 1) * 10 ^ length a"
    using IH by simp
  also have "\<dots> \<le> (10 * (n + 1)) * 10 ^ length a"
    using c by (intro mult_right_mono) simp_all
  also have "\<dots> = (n + 1) * 10 ^ length (c # a)"
    by simp
  finally show ?case using IH by simp
qed

lemma js_Number_bound:
  "js_Number a = Some v \<Longrightarrow> 0 \<le> v \<and> v < 10 ^ length a"
  using digits_fold_bound [of a 0] by (auto simp: js_Number_def split: if_splits)

lemma js_Number_digits: "list_all is_digit a \<Longrightarrow> \<exists>v. js_Number a = Some v"
  by (simp add: js_Number_def)

lemma TimeClip_in_range:
  assumes "0 \<le> y" "y \<le> 9999" and "DayFromYear y \<le> d" "d < DayFromYear (y + 1)"
    and "- msPerDay < z" "z \<le> 0"
  shows "TimeClip (d * msPerDay - z) = Some (d * msPerDay - z)"
proof -
  have "DayFromYear 0 \<le> DayFromYear y" using assms(1) by (rule DayFromYear_mono)
  moreover have "DayFromYear (y + 1) \<le> DayFromYear 10000"
    using assms(2) by (intro DayFromYear_mono) simp
  moreover have "DayFromYear 0 = - 719528" "DayFromYear 10000 = 2932897"
    by (simp_all add: DayFromYear_def)
  ultimately have d: "- 719528 \<le> d" "d < 2932897" using assms(3,4) by simp_all
  then have "- 719528 * msPerDay \<le> d * msPerDay" "d * msPerDay \<le> 2932897 * msPerDay"
    by (simp_all add: msPerDay_def)
  then have "\<bar>d * msPerDay - z\<bar> \<le> 8640000000000000"
    using assms(5,6) by (simp add: msPerDay_def abs_le_iff)
  then show ?thesis by (simp add: TimeClip_def)
qed

lemma day_within_year:
  assumes m: "1 \<le> m" "m \<le> 12" and dd: "1 \<le> dd" "dd \<le> days_in_month y m"
  shows "DayFromYear y \<le> DayFromYear y + month_start y (m - 1) + dd - 1"
    and "DayFromYear y + month_start y (m - 1) + dd - 1 < DayFromYear (y + 1)"
proof -
  define l where "l = leap_day y"
  have l: "0 \<le> l" "l \<le> 1" by (simp_all add: l_def leap_day_bounds)
  note tables = month_start_leap_day days_in_month_leap_day DaysInYear_leap_day l_def [symmetric]
  have w: "0 \<le> month_start y (m - 1) + dd - 1 \<and>
      month_start y (m - 1) + dd - 1 < DaysInYear y"
    using m(1,2) dd l by (cases m rule: month_cases) (simp_all add: tables)
  from w show "DayFromYear y \<le> DayFromYear y + month_start y (m - 1) + dd - 1" by simp
  from w show "DayFromYear y + month_start y (m - 1) + dd - 1 < DayFromYear (y + 1)"
    by (simp add: DayFromYear_Suc)
qed

text \<open>
  A date built from the local-time fields of day \<open>dd\<close> of month \<open>m\<close> of year \<open>y\<close>
  prints as that day when the local time is UTC or west of it.
\<close>

lemma fmt_new_Date:
  assumes y: "100 \<le> y" "y \<le> 9999" and m: "1 \<le> m" "m \<le> 12"
    and dd: "1 \<le> dd" "dd \<le> days_in_month y m"
    and tz: "\<forall>t. - msPerDay < tz t \<and> tz t \<le> 0"
    and mk: "MakeDay y mo dt = DayFromYear y + month_start y (m - 1) + dd - 1"
  shows "fmt (new_Date tz y mo dt) = Inr (ymd_string y m dd)"
proof -
  define d where "d = DayFromYear y + month_start y (m - 1) + dd - 1"
  define tv where "tv = d * msPerDay - tz (d * msPerDay)"
  have z: "- msPerDay < tz (d * msPerDay)" "tz (d * msPerDay) \<le> 0" using tz by simp_all
  have range: "DayFromYear y \<le> d" "d < DayFromYear (y + 1)"
    unfolding d_def by (rule day_within_year [OF m dd])+
  have clip: "TimeClip tv = Some tv"
    unfolding tv_def using y range z by (intro TimeClip_in_range) simp_all
  have "new_Date tz y mo dt = TimeClip tv"
    using y(1) by (simp add: new_Date_def Let_def MakeDate_def UTC_def mk tv_def d_def)
  then have nd: "new_Date tz y mo dt = Some tv" by (simp add: clip)
  have day: "Day tv = DayFromYear y + month_start y (m - 1) + dd - 1"
    unfolding tv_def d_def [symmetric] using z by (rule Day_local_midnight)
  have dd31: "dd \<le> 31" using dd(2) days_in_month_bounds(2) [OF m, of y] by simp
  have "fmt (Some tv) = Inr (ymd_string y m dd)"
    using date_fields [OF m dd day] y m dd(1) dd31 by (intro fmt_date) simp_all
  then show ?thesis by (simp add: nd)
qed

lemma firstLastDayOfMonth_west_of_Greenwich:
  assumes "YM_test s" and "js_Number (take 4 s) = Some y" and "js_Number (drop 5 s) = Some m"
    and "100 \<le> y" and "1 \<le> m" and "m \<le> 12"
    and "\<forall>t. - msPerDay < tz t \<and> tz t \<le> 0"
  shows "firstLastDayOfMonth tz s =
    Inr \<lparr>period_from = ymd_string y m 1, period_to = ymd_string y m (days_in_month y m)\<rparr>"
proof -
  have "length (take 4 s) = 4" using assms(1) by (simp add: YM_test_def)
  with js_Number_bound [OF assms(2)] have y: "100 \<le> y" "y \<le> 9999"
    using assms(4) by simp_all
  note m = assms(5,6)
  have dim: "1 \<le> days_in_month y m" using days_in_month_bounds(1) [OF m, of y] by simp
  have first: "fmt (new_Date tz y (m - 1) 1) = Inr (ymd_string y m 1)"
    using MakeDay_first [OF m, of y]
    by (intro fmt_new_Date [OF y m _ _ assms(7)]) (use dim in simp_all)
  have last: "fmt (new_Date tz y m 0) = Inr (ymd_string y m (days_in_month y m))"
    using MakeDay_last [OF m, of y]
    by (intro fmt_new_Date [OF y m _ _ assms(7)]) (use dim in simp_all)
  show ?thesis
    by (simp add: firstLastDayOfMonth_def YM_test_split [OF assms(1)] assms(2,3) Let_def first last)
qed

lemma month_start_bounds: "0 \<le> month_start ym mn" "month_start ym mn \<le> 335"
  using leap_day_bounds [of ym] by (simp_all add: month_start_leap_day)

lemma new_Date_valid:
  assumes y: "0 \<le> y" "y \<le> 9999" and mo: "- 1 \<le> mo" "mo \<le> 99" and dt: "0 \<le> dt" "dt \<le> 1"
    and tz: "\<forall>t. \<bar>tz t\<bar> < msPerDay"
  shows "\<exists>tv. new_Date tz y mo dt = Some tv"
proof -
  define yr where "yr = (if 0 \<le> y \<and> y \<le> 99 then 1900 + y else y)"
  define ym where "ym = yr + mo div 12"
  define d where "d = MakeDay yr mo dt"
  have yr: "100 \<le> yr" "yr \<le> 9999" using y by (simp_all add: yr_def)
  have "- 1 \<le> mo div 12" "mo div 12 \<le> 8" using mo by simp_all
  with yr have ym: "99 \<le> ym" "ym \<le> 10007" by (simp_all add: ym_def)
  have "DayFromYear 99 \<le> DayFromYear ym" "DayFromYear ym \<le> DayFromYear 10007"
    using ym by (simp_all add: DayFromYear_mono)
  moreover have "- 683369 \<le> DayFromYear 99" "DayFromYear 10007 \<le> 2935454"
    by (simp_all add: DayFromYear_def)
  moreover have "d = DayFromYear ym + month_start ym (mo mod 12) + dt - 1"
    by (simp add: d_def MakeDay_def Let_def ym_def)
  ultimately have d: "- 683370 \<le> d" "d \<le> 2935789"
    using month_start_bounds [of ym "mo mod 12"] dt by simp_all
  then have "- 683370 * msPerDay \<le> d * msPerDay" "d * msPerDay \<le> 2935789 * msPerDay"
    by (simp_all add: msPerDay_def)
  moreover have "\<bar>tz (d * msPerDay)\<bar> < msPerDay" using tz by simp
  ultimately have "\<bar>d * msPerDay - tz (d * msPerDay)\<bar> \<le> 8640000000000000"
    by (simp add: msPerDay_def abs_le_iff abs_less_iff)
  then show ?thesis
    by (simp add: new_Date_def Let_def yr_def [symmetric] d_def [symmetric]
        MakeDate_def UTC_def TimeClip_def)
qed

lemma fmt_valid: "new_Date tz y mo dt = Some tv \<Longrightarrow> \<exists>str. fmt (new_Date tz y mo dt) = Inr str"
  by (simp add: fmt_def toISOString_def)

text \<open>
  On a token that matches YYYY-MM, \<^verbatim>\<open>firstLastDayOfMonth\<close> returns a period in
  every time zone: no date is invalid.
\<close>

lemma firstLastDayOfMonth_returns:
  assumes "YM_test s" and "\<forall>t. \<bar>tz t\<bar> < msPerDay"
  shows "\<exists>p. firstLastDayOfMonth tz s = Inr p"
proof -
  from assms(1) have da: "list_all is_digit (take 4 s)" and db: "list_all is_digit (drop 5 s)"
    and la: "length (take 4 s) = 4" and lb: "length (drop 5 s) = 2"
    by (simp_all add: YM_test_def)
  obtain y m where y: "js_Number (take 4 s) = Some y" and m: "js_Number (drop 5 s) = Some m"
    using js_Number_digits [OF da] js_Number_digits [OF db] by blast
  have yb: "0 \<le> y" "y \<le> 9999" using js_Number_bound [OF y] la by simp_all
  have mb: "0 \<le> m" "m \<le> 99" using js_Number_bound [OF m] lb by simp_all
  obtain t1 where t1: "new_Date tz y (m - 1) 1 = Some t1"
    using new_Date_valid [OF yb _ _ _ _ assms(2), of "m - 1" 1] mb by auto
  obtain t2 where t2: "new_Date tz y m 0 = Some t2"
    using new_Date_valid [OF yb _ _ _ _ assms(2), of m 0] mb by auto
  obtain f l where "fmt (new_Date tz y (m - 1) 1) = Inr f" "fmt (new_Date tz y m 0) = Inr l"
    using fmt_valid [OF t1] fmt_valid [OF t2] by blast
  then show ?thesis
    by (simp add: firstLastDayOfMonth_def YM_test_split [OF assms(1)] y m Let_def)
qed

lemma firstLastDayOfMonth_utc_examples:
  "firstLastDayOfMonth (LocalTZA utc_env) ''2024-02'' = Inr feb_2024
   \<and> firstLastDayOfMonth (LocalTZA utc_env) ''2023-02''
       = Inr \<lparr>period_from = ''2023-02-01'', period_to = ''2023-02-28''\<rparr>"
proof -
  have tz: "\<forall>t. - msPerDay < LocalTZA utc_env t \<and> LocalTZA utc_env t \<le> 0"
    by (simp add: utc_env_def msPerDay_def)
  have n: "js_Number ''2024'' = Some 2024" "js_Number ''2023'' = Some 2023"
    "js_Number ''02'' = Some 2"
    by (simp_all add: js_Number_def is_digit_def digit_value_def)
  have s: "ymd_string 2024 2 1 = ''2024-02-01''" "ymd_string 2024 2 29 = ''2024-02-29''"
    "ymd_string 2023 2 1 = ''2023-02-01''" "ymd_string 2023 2 28 = ''2023-02-28''"
    by code_simp+
  have d: "days_in_month 2024 2 = 29" "days_in_month 2023 2 = 28"
    by (simp_all add: days_in_month_def leap_year_def)
  have a: "firstLastDayOfMonth (LocalTZA utc_env) ''2024-02'' = Inr feb_2024"
    using firstLastDayOfMonth_west_of_Greenwich [of "''2024-02''" 2024 2 "LocalTZA utc_env"] tz n
    by (simp add: YM_test_def is_digit_def s d feb_2024_def)
  have b: "firstLastDayOfMonth (LocalTZA utc_env) ''2023-02''
       = Inr \<lparr>period_from = ''2023-02-01'', period_to = ''2023-02-28''\<rparr>"
    using firstLastDayOfMonth_west_of_Greenwich [of "''2023-02''" 2023 2 "LocalTZA utc_env"] tz n
    by (simp add: YM_test_def is_digit_def s d)
  from a b show ?thesis by simp
qed

text \<open>
  With a profile, a month that matches YYYY-MM and a time zone less than a day
  from UTC, the monthly summary sends its one request to the store.
\<close>

lemma summary_month_reaches_store:
  assumes "getProfileIdByAuthId e (req_user req) = Some userId" and "userId \<noteq> 0"
    and "q_month (req_query req) = Some (QString s)" and "YM_test s"
    and "\<forall>t. \<bar>LocalTZA e t\<bar> < msPerDay"
  shows "\<exists>p. firstLastDayOfMonth (LocalTZA e) s = Inr p
    \<and> fst (summary_month e store req) = [summary_request userId p]"
proof -
  obtain p where p: "firstLastDayOfMonth (LocalTZA e) s = Inr p"
    using firstLastDayOfMonth_returns [OF assms(4,5)] by blast
  have "summary_month_token e (req_query req) = s"
    by (simp add: summary_month_token_def assms(3,4))
  then have "fst (summary_month e store req) = [summary_request userId p]"
    by (simp add: summary_month_def assms(1,2) p Let_def split: option.split)
  with p show ?thesis by blast
qed

text \<open>The month built from a four-digit clock matches YYYY-MM.\<close>

lemma digits_all_digit: "list_all is_digit (digits n)"
proof (induction n rule: digits.induct)
  case (1 n)
  show ?case
  proof (cases "n < 10")
    case True
    then show ?thesis by (subst digits.simps) (simp add: is_digit_def)
  next
    case False
    have "n mod 10 < 10" by simp
    then have "is_digit (char_of (48 + n mod 10))" by (simp add: is_digit_def)
    with False "1.IH" show ?thesis by (subst digits.simps) simp
  qed
qed

lemma length_digits_lower: "10 ^ k \<le> n \<Longrightarrow> k < length (digits n)"
proof (induction k arbitrary: n)
  case 0
  show ?case by (subst digits.simps) simp
next
  case (Suc k)
  have "(1::nat) \<le> 10 ^ k" by simp
  then have "(10::nat) \<le> 10 * 10 ^ k" by simp
  also have "\<dots> \<le> n" using Suc.prems by simp
  finally have n: "\<not> n < 10" by (simp add: not_less)
  from Suc.prems have "10 ^ k \<le> n div 10" by (simp add: less_eq_div_iff_mult_less_eq mult.commute)
  then have "k < length (digits (n div 10))" by (rule Suc.IH)
  with n show ?case by (subst digits.simps) simp
qed

lemma YM_test_parts:
  assumes "length a = 4" "list_all is_digit a" "length b = 2" "list_all is_digit b"
  shows "YM_test (a @ ''-'' @ b)"
  using assms by (simp add: YM_test_def nth_append)

lemma current_month_YM:
  assumes "clock_ok e"
  shows "YM_test (current_month e)"
proof -
  from assms have y: "1000 \<le> getFullYear e" "getFullYear e \<le> 9999"
    and mo: "0 \<le> getMonth e" "getMonth e \<le> 11"
    by (simp_all add: clock_ok_def)
  have ys: "String_int (getFullYear e) = digits (nat (getFullYear e))"
    using y by (simp add: String_int_def)
  have "nat (getFullYear e) < 10 ^ 4" using y by simp
  then have "length (digits (nat (getFullYear e))) \<le> 4" by (intro length_digits) simp_all
  moreover have "10 ^ 3 \<le> nat (getFullYear e)" using y by simp
  then have "3 < length (digits (nat (getFullYear e)))" by (rule length_digits_lower)
  ultimately have la: "length (String_int (getFullYear e)) = 4" by (simp add: ys)
  have da: "list_all is_digit (String_int (getFullYear e))"
    by (simp add: ys digits_all_digit)
  have ms: "String_int (getMonth e + 1) = digits (nat (getMonth e + 1))"
    using mo by (simp add: String_int_def)
  have "nat (getMonth e + 1) < 10 ^ 2" using mo by simp
  then have "length (digits (nat (getMonth e + 1))) \<le> 2" by (intro length_digits) simp_all
  then have lb: "length (padStart 2 CHR ''0'' (String_int (getMonth e + 1))) = 2"
    by (simp add: ms padStart_def)
  have r: "list_all is_digit (replicate k CHR ''0'')" for k
    by (induction k) (simp_all add: is_digit_def)
  have db: "list_all is_digit (padStart 2 CHR ''0'' (String_int (getMonth e + 1)))"
    by (simp add: ms padStart_def digits_all_digit r)
  show ?thesis
    unfolding current_month_def by (rule YM_test_parts [OF la da lb db])
qed

text \<open>
  Claim C2, as amended. A month parameter that is present and fails the pattern
  YYYY-MM is rejected by the list of transactions: the response is 400 with the
  field \<open>month\<close> among the failing fields (404 when the user has no profile), and
  no request reaches the store. The monthly summary raises no error for it. It
  answers exactly as it does when the parameter is absent: with a profile, it
  sends the request for the period of \<open>current_month\<close>, the month of the clock,
  and the response is 200 with the summary of that month, or 400 with the
  message of the store when the store fails. With a four-digit clock and a time
  zone less than a day from UTC the period of the current month always
  resolves.
\<close>

theorem malformed_month:
  assumes "q_month (req_query req) = Some v" and "month_fails_pattern v"
  shows "summary_month e store req =
           summary_month e store (req\<lparr>req_query := (req_query req)\<lparr>q_month := None\<rparr>\<rparr>)
    \<and> (getProfileIdByAuthId e (req_user req) = Some userId \<and> userId \<noteq> 0
        \<and> firstLastDayOfMonth (LocalTZA e) (current_month e) = Inr p \<longrightarrow>
        fst (summary_month e store req) = [summary_request userId p]
        \<and> (error (store (summary_request userId p)) = None \<longrightarrow>
             snd (summary_month e store req) =
               Response 200 (Data (summarize (current_month e) p
                  (rows_of (store (summary_request userId p))))))
        \<and> (error (store (summary_request userId p)) = Some msg \<longrightarrow>
             snd (summary_month e store req) = Response 400 (Detail msg)))
    \<and> (clock_ok e \<and> (\<forall>t. \<bar>LocalTZA e t\<bar> < msPerDay) \<longrightarrow>
        (\<exists>p'. firstLastDayOfMonth (LocalTZA e) (current_month e) = Inr p'))
    \<and> (\<exists>errs. ''month'' \<in> set errs \<and>
          list_transactions e store' req =
            (if no_profile e req then not_found else ([], Response 400 (Flatten errs))))"
proof -
  have t: "summary_month_token e (req_query req) = current_month e"
    using assms by (rule summary_month_token_fails)
  have a: "summary_month e store req =
           summary_month e store (req\<lparr>req_query := (req_query req)\<lparr>q_month := None\<rparr>\<rparr>)"
    by (simp add: summary_month_def Let_def t summary_month_token_absent
        cong: option.case_cong if_cong)
  have b: "fst (summary_month e store req) = [summary_request userId p]
        \<and> (error (store (summary_request userId p)) = None \<longrightarrow>
             snd (summary_month e store req) =
               Response 200 (Data (summarize (current_month e) p
                  (rows_of (store (summary_request userId p))))))
        \<and> (error (store (summary_request userId p)) = Some msg \<longrightarrow>
             snd (summary_month e store req) = Response 400 (Detail msg))"
    if "getProfileIdByAuthId e (req_user req) = Some userId \<and> userId \<noteq> 0
        \<and> firstLastDayOfMonth (LocalTZA e) (current_month e) = Inr p"
    using that by (simp add: summary_month_def Let_def t rows_of_def split: option.split)
  have c: "\<exists>p'. firstLastDayOfMonth (LocalTZA e) (current_month e) = Inr p'"
    if "clock_ok e \<and> (\<forall>t. \<bar>LocalTZA e t\<bar> < msPerDay)"
    using that by (intro firstLastDayOfMonth_returns current_month_YM) simp_all
  obtain errs where errs: "listQuerySchema (req_query req) = Inl errs" "''month'' \<in> set errs"
    using listQuerySchema_month_fails [OF assms] by blast
  have "list_transactions e store' req =
            (if no_profile e req then not_found else ([], Response 400 (Flatten errs)))"
    by (simp add: list_transactions_def no_profile_def errs(1) split: option.split)
  with errs(2) have d: "\<exists>errs. ''month'' \<in> set errs \<and>
          list_transactions e store' req =
            (if no_profile e req then not_found else ([], Response 400 (Flatten errs)))"
    by blast
  from a b c d show ?thesis by blast
qed

theorem malformed_month_witness:
  "summary_month utc_env empty_store bad_month_request =
     summary_month utc_env empty_store
       (bad_month_request\<lparr>req_query := (req_query bad_month_request)\<lparr>q_month := None\<rparr>\<rparr>)
   \<and> fst (summary_month utc_env empty_store bad_month_request) = [summary_request 7 nov_2026]
   \<and> snd (summary_month utc_env empty_store bad_month_request) =
       Response 200 (Data (summarize (current_month utc_env) nov_2026
          (rows_of (empty_store (summary_request 7 nov_2026)))))
   \<and> snd (summary_month utc_env failing_store bad_month_request) =
       Response 400 (Detail ''connection refused'')
   \<and> (\<exists>p'. firstLastDayOfMonth (LocalTZA utc_env) (current_month utc_env) = Inr p')
   \<and> list_transactions utc_env empty_list_store bad_month_request
       = ([], Response 400 (Flatten [''month'']))"
proof -
  have a: "q_month (req_query bad_month_request) = Some (QString ''2024-2'')"
    by (simp add: bad_month_request_def)
  have b: "month_fails_pattern (QString ''2024-2'')"
    by (simp add: month_fails_pattern_def YM_test_def)
  have r: "firstLastDayOfMonth (LocalTZA utc_env) (current_month utc_env) = Inr nov_2026"
    by code_simp
  have pr: "getProfileIdByAuthId utc_env (req_user bad_month_request) = Some 7 \<and> (7::int) \<noteq> 0
      \<and> firstLastDayOfMonth (LocalTZA utc_env) (current_month utc_env) = Inr nov_2026"
    using r by (simp add: utc_env_def bad_month_request_def)
  have ck: "clock_ok utc_env \<and> (\<forall>t. \<bar>LocalTZA utc_env t\<bar> < msPerDay)"
    by (simp add: clock_ok_def utc_env_def msPerDay_def)
  have e1: "error (empty_store (summary_request 7 nov_2026)) = None"
    by (simp add: empty_store_def)
  have e2: "error (failing_store (summary_request 7 nov_2026)) = Some ''connection refused''"
    by (simp add: failing_store_def)
  have l: "list_transactions utc_env empty_list_store bad_month_request
       = ([], Response 400 (Flatten [''month'']))"
    by (simp add: list_transactions_def utc_env_def bad_month_request_def listQuerySchema_def
        optional_string_def YM_test_def)
  note r1 = malformed_month [OF a b, where e = utc_env and store = empty_store and userId = 7
      and p = nov_2026 and store' = empty_list_store]
  note r2 = malformed_month [OF a b, where e = utc_env and store = failing_store and userId = 7
      and p = nov_2026 and msg = "''connection refused''" and store' = empty_list_store]
  from r1 pr e1 ck have
    "summary_month utc_env empty_store bad_month_request =
       summary_month utc_env empty_store
         (bad_month_request\<lparr>req_query := (req_query bad_month_request)\<lparr>q_month := None\<rparr>\<rparr>)"
    "fst (summary_month utc_env empty_store bad_month_request) = [summary_request 7 nov_2026]"
    "snd (summary_month utc_env empty_store bad_month_request) =
       Response 200 (Data (summarize (current_month utc_env) nov_2026
          (rows_of (empty_store (summary_request 7 nov_2026)))))"
    "\<exists>p'. firstLastDayOfMonth (LocalTZA utc_env) (current_month utc_env) = Inr p'"
    by blast+
  moreover from r2 pr e2 have
    "snd (summary_month utc_env failing_store bad_month_request) =
       Response 400 (Detail ''connection refused'')"
    by blast
  ultimately show ?thesis using l by (intro conjI)
qed

text \<open>
  Claim C2 as stated fails: the monthly summary answers a request whose month
  is \<^verbatim>\<open>2024-2\<close> with status 200 and the summary of the current month.
\<close>

theorem malformed_month_summary_is_200:
  "summary_month utc_env empty_store bad_month_request =
     ([summary_request 7 nov_2026],
      Response 200 (Data \<lparr>month = ''2026-11'', from_date = ''2026-11-01'',
        to_date = ''2026-11-30'', inc = 0, exp = 0, net = 0, byCategory = []\<rparr>))"
  by code_simp

text \<open>
  Claim C1. For a token that matches YYYY-MM with a month from 01 to 12 and a
  year from 0100 on, \<open>firstLastDayOfMonth_west_of_Greenwich\<close> above shows that
  the period is the first and the last calendar day of the month whenever the
  local time of the server is UTC or west of it. The claim as stated fails
  elsewhere. The code builds both dates from local-time fields and prints them
  in UTC: east of Greenwich the local midnight falls on the day before in UTC,
  and each bound is one day early. With the local time at UTC+01:00,
  \<^verbatim>\<open>2024-02\<close> resolves to 2024-01-31 and 2024-02-28, not to the first and the last
  day of February.
\<close>

theorem firstLastDayOfMonth_east_of_Greenwich:
  "firstLastDayOfMonth utc_plus_1 ''2024-02''
     = Inr \<lparr>period_from = ''2024-01-31'', period_to = ''2024-02-28''\<rparr>"
  by code_simp

text \<open>
  A year from 0000 to 0099 is read as 1900 plus the year, whatever the time
  zone: at UTC the token \<^verbatim>\<open>0050-02\<close> resolves to February 1950.
\<close>

lemma firstLastDayOfMonth_two_digit_year:
  "firstLastDayOfMonth (LocalTZA utc_env) ''0050-02''
     = Inr \<lparr>period_from = ''1950-02-01'', period_to = ''1950-02-28''\<rparr>"
  by code_simp

end
